theory Spec2Isabelle
  imports Complex_Main "HOL-Library.Sublist"
begin

section \<open>The particle list action of larg4\<close>

text \<open>
  A shallow embedding of \<^verbatim>\<open>larg4/pluginActions/ParticleListAction_service.cxx\<close>: the
  callbacks by which Geant4 drives the service (begin of event, track entry, step, track
  exit, end of event) become functions on an explicit record of the service's members.

  Conventions of the model.
  \<^item> C++ \<^verbatim>\<open>int\<close> and \<^verbatim>\<open>G4int\<close> are 32-bit. The increment of the track id offset in
    \<^verbatim>\<open>GetList\<close> and \<^verbatim>\<open>YieldList\<close> is written with its wrap-around (\<open>int32\<close>), since the
    offset grows over a run and the order of track ids depends on it. The other
    integer operations are written on mathematical integers; a statement about the
    order of their results is made only where the results are representable.
  \<^item> C++ \<^verbatim>\<open>double\<close> is \<^typ>\<open>real\<close>. The statements below depend on the order of reads
    and writes and on comparisons, never on rounding; the concrete inputs used are
    dyadic rationals or far from any rounding boundary.
  \<^item> A call that does not return is the value \<^term>\<open>None\<close> of an option type; a null
    dereference or an exception of a collaborator is a value of type \<open>fault\<close>.
  \<^item> A pointer \<^verbatim>\<open>simb::MCParticle*\<close> into the particle list is the key (track id) of
    the cell it points to: the list owns the record, and every write through the
    pointer is a write to that cell.
\<close>

subsection \<open>Constants of the collaborating libraries\<close>

text \<open>\<^verbatim>\<open>sim::NoParticleId\<close> of lardataobj is \<^verbatim>\<open>std::numeric_limits<int>::min()\<close>.\<close>

definition NoParticleId :: int where
  "NoParticleId = - 2147483648"

text \<open>The value a 32-bit \<^verbatim>\<open>int\<close> holds when the result of an operation is \<open>x\<close>:
  \<open>x\<close> itself when it is representable, and \<open>x\<close> wrapped around modulo \<open>2 ^ 32\<close>
  otherwise (signed overflow is undefined in the language; the wrap-around is what
  the two's complement addition of the machine does).\<close>

definition int32 :: "int \<Rightarrow> int" where
  "int32 x = (x + 2147483648) mod 4294967296 - 2147483648"

text \<open>The CLHEP system of units: millimetre, nanosecond and MeV are 1.\<close>

definition CLHEP_GeV :: real where
  "CLHEP_GeV = 1000"

definition CLHEP_cm :: real where
  "CLHEP_cm = 10"

definition CLHEP_ns :: real where
  "CLHEP_ns = 1"

datatype fault = NullDereference | DuplicateTrackId | KeyNotFound

subsection \<open>Strings\<close>

text \<open>\<^verbatim>\<open>s.find(sub) != std::string::npos\<close> and \<^verbatim>\<open>G4String::contains\<close>: \<open>sub\<close> occurs in
  \<open>s\<close> as a contiguous block.\<close>

fun str_contains :: "string \<Rightarrow> string \<Rightarrow> bool" where
  "str_contains [] sub = (sub = [])"
| "str_contains (c # cs) sub = (prefix sub (c # cs) \<or> str_contains cs sub)"

subsection \<open>Particles and the particle list\<close>

type_synonym G4ThreeVector = "real \<times> real \<times> real"
type_synonym TVector3 = "real \<times> real \<times> real"
type_synonym TLorentzVector = "real \<times> real \<times> real \<times> real"

text \<open>Modelled from the spec: \<^verbatim>\<open>simb::MCParticle\<close> (nusimdata) is not part of the
  sources. The fields are those of the spec's ParticleRecord; the daughters are a set
  of track ids and the trajectory an append-only sequence of points.\<close>

record MCParticle =
  TrackId :: int
  PdgCode :: int
  Process :: string
  Mother :: int
  Mass :: real
  Polarization :: TVector3
  Trajectory :: "(TLorentzVector \<times> TLorentzVector \<times> string) list"
  Daughters :: "int set"
  Weight :: real
  EndProcess :: string

text \<open>\<^verbatim>\<open>new simb::MCParticle(trackID, pdgCode, process_name, parentID, mass)\<close>.\<close>

definition new_MCParticle :: "int \<Rightarrow> int \<Rightarrow> string \<Rightarrow> int \<Rightarrow> real \<Rightarrow> MCParticle" where
  "new_MCParticle trackID pdgCode process_name parentID mass =
     \<lparr>TrackId = trackID, PdgCode = pdgCode, Process = process_name, Mother = parentID,
      Mass = mass, Polarization = (0, 0, 0), Trajectory = [], Daughters = {},
      Weight = 0, EndProcess = []\<rparr>"

definition NumberTrajectoryPoints :: "MCParticle \<Rightarrow> nat" where
  "NumberTrajectoryPoints p = length (Trajectory p)"

definition AddTrajectoryPoint ::
  "MCParticle \<Rightarrow> TLorentzVector \<Rightarrow> TLorentzVector \<Rightarrow> string \<Rightarrow> MCParticle" where
  "AddTrajectoryPoint p pos mom process = p\<lparr>Trajectory := Trajectory p @ [(pos, mom, process)]\<rparr>"

definition AddDaughter :: "MCParticle \<Rightarrow> int \<Rightarrow> MCParticle" where
  "AddDaughter p trackID = p\<lparr>Daughters := insert trackID (Daughters p)\<rparr>"

text \<open>Modelled from the spec: \<^verbatim>\<open>sim::ParticleList\<close> (nutools) is not part of the
  sources. The spec's TrackRegistry is a mapping from track id to a particle record or
  an archived marker, iterated in ascending order of track id; an archived cell has
  lost its payload (the pointer is null) and retains the parent id.\<close>

datatype entry = Live MCParticle | Archived int

type_synonym ParticleList = "(int \<times> entry) list"

definition find_entry :: "ParticleList \<Rightarrow> int \<Rightarrow> entry option" where
  "find_entry pl key = map_of pl key"

text \<open>Modelled from the spec: \<open>knownParticle(trackId)\<close>; archived entries are excluded
  from it. The service hands it the current track id, which is the negated id of an
  ancestor (the negative encoding of a dropped track), and the spec has that check be
  \<open>knownParticle(ancestorId)\<close>, as the comment in the source has it be a check that the
  parent is in the list: a record is found by the magnitude of the id.\<close>

definition KnownParticle :: "ParticleList \<Rightarrow> int \<Rightarrow> bool" where
  "KnownParticle pl trackID =
     (case find_entry pl \<bar>trackID\<bar> of Some (Live p) \<Rightarrow> True | _ \<Rightarrow> False)"

text \<open>Modelled from the spec: \<open>add(record)\<close>, key = the record's track id, which must
  not already exist.\<close>

definition Add :: "MCParticle \<Rightarrow> ParticleList \<Rightarrow> fault + ParticleList" where
  "Add p pl =
     (if find_entry pl (TrackId p) \<noteq> None then Inl DuplicateTrackId
      else Inr (insort_key fst (TrackId p, Live p) pl))"

text \<open>A write to the cell of key \<open>key\<close> (through a pointer or an iterator).\<close>

fun update_entry :: "int \<Rightarrow> (entry \<Rightarrow> entry) \<Rightarrow> ParticleList \<Rightarrow> ParticleList" where
  "update_entry key f [] = []"
| "update_entry key f ((k, e) # pl) =
     (if k = key then (k, f e) # pl else (k, e) # update_entry key f pl)"

text \<open>Modelled from the spec: \<open>archive(trackId)\<close> moves the payload out and releases the
  record; the parent id stays.\<close>

definition Archive :: "int \<Rightarrow> ParticleList \<Rightarrow> ParticleList" where
  "Archive key pl =
     update_entry key (\<lambda>e. case e of Live p \<Rightarrow> Archived (Mother p) | Archived m \<Rightarrow> Archived m) pl"

text \<open>Modelled from the spec: \<open>motherOf(trackId)\<close> works for archived entries too; a key
  that is absent has no mother (the library's \<^verbatim>\<open>std::map::at\<close> throws).\<close>

definition GetMotherOf :: "ParticleList \<Rightarrow> int \<Rightarrow> fault + int" where
  "GetMotherOf pl key =
     (case find_entry pl key of
        None \<Rightarrow> Inl KeyNotFound
      | Some (Live p) \<Rightarrow> Inr (Mother p)
      | Some (Archived m) \<Rightarrow> Inr m)"

text \<open>Reading through a \<^verbatim>\<open>simb::MCParticle*\<close>: the record of a live cell.\<close>

definition deref :: "ParticleList \<Rightarrow> int \<Rightarrow> MCParticle option" where
  "deref pl ptr = (case find_entry pl ptr of Some (Live p) \<Rightarrow> Some p | _ \<Rightarrow> None)"

subsection \<open>The members of the service\<close>

text \<open>Modelled from the spec: the header declaring \<^verbatim>\<open>fCurrentParticle\<close> is not part of
  the sources. The spec's CurrentParticleSlot holds the in-progress record (or none)
  and a boolean keep decision; clearing it leaves no record and nothing decided.\<close>

record ParticleInfo_t =
  particle :: "int option"
  keep :: bool

definition ParticleInfo_clear :: ParticleInfo_t where
  "ParticleInfo_clear = \<lparr>particle = None, keep = False\<rparr>"

definition hasParticle :: "ParticleInfo_t \<Rightarrow> bool" where
  "hasParticle cp = (particle cp \<noteq> None)"

text \<open>The configuration is fixed at construction; \<open>fFilter\<close> is the optional keep
  predicate (a null pointer when none is configured).\<close>

record Config =
  fenergyCut :: real
  fstoreTrajectories :: bool
  fKeepEMShowerDaughters :: bool
  fFilter :: "(TLorentzVector \<Rightarrow> bool) option"

record ServiceState =
  fCurrentTrackID :: int
  fTrackIDOffset :: int
  fparticleList :: ParticleList
  fParentIDMap :: "int \<rightharpoonup> int"
  fCurrentParticle :: ParticleInfo_t

subsection \<open>What the engine passes in\<close>

datatype G4VUserPrimaryParticleInformation = PrimaryParticleInformation | OtherUserInformation

record G4PrimaryParticle =
  GetUserInformation :: "G4VUserPrimaryParticleInformation option"

text \<open>A track: \<open>GetCreatorProcess\<close> is the name of the creator process, \<^term>\<open>None\<close> for a
  null pointer; \<open>GetPrimaryParticle\<close> is \<^term>\<open>None\<close> for a null pointer.
  \<open>GetEndProcessName\<close> stands for
  \<^verbatim>\<open>GetStep()->GetPostStepPoint()->GetProcessDefinedStep()->GetProcessName()\<close>.\<close>

record G4Track =
  GetTrackID :: int
  GetParentID :: int
  GetPDGEncoding :: int
  GetPrimaryParticle :: "G4PrimaryParticle option"
  GetCreatorProcess :: "string option"
  GetKineticEnergy :: real
  GetMass :: real
  GetPolarization :: G4ThreeVector
  GetWeight :: real
  GetTrackGlobalTime :: real
  GetVelocity :: real
  GetEndProcessName :: string

text \<open>A step point; \<open>GetProcessName\<close> is the name of the process that defined the step.\<close>

record G4StepPoint =
  GetPosition :: G4ThreeVector
  GetGlobalTime :: real
  GetMomentum :: G4ThreeVector
  GetTotalEnergy :: real
  GetProcessName :: string

record G4Step =
  GetTrack :: G4Track
  GetPreStepPoint :: G4StepPoint
  GetPostStepPoint :: G4StepPoint
  GetStepLength :: real
  GetDeltaTime :: real

subsection \<open>beginOfEventAction\<close>

definition beginOfEventAction :: "ServiceState \<Rightarrow> ServiceState" where
  "beginOfEventAction s =
     s\<lparr>fCurrentParticle := ParticleInfo_clear,
       fparticleList := [],
       fParentIDMap := Map.empty,
       fCurrentTrackID := NoParticleId\<rparr>"

subsection \<open>GetParentage\<close>

text \<open>The \<^verbatim>\<open>while\<close> loop of \<^verbatim>\<open>GetParentage\<close>: \<open>itr\<close> is the result of the last
  \<^verbatim>\<open>fParentIDMap.find\<close> (\<^term>\<open>None\<close> for \<^verbatim>\<open>end()\<close>, otherwise the mapped value). On a
  map with a cycle the loop does not return.\<close>

partial_function (option) GetParentage_loop ::
  "(int \<rightharpoonup> int) \<Rightarrow> int \<Rightarrow> int option \<Rightarrow> int option" where
  "GetParentage_loop m parentid itr =
     (case itr of
        None \<Rightarrow> Some parentid
      | Some second \<Rightarrow> GetParentage_loop m second (m second))"

definition GetParentage :: "(int \<rightharpoonup> int) \<Rightarrow> int \<Rightarrow> int option" where
  "GetParentage m trackid = GetParentage_loop m NoParticleId (m trackid)"

text \<open>The same loop cut off after \<open>n\<close> executions of its body: the value is \<^term>\<open>None\<close>
  when the loop would enter its body once more. It measures the depth of a
  resolution.\<close>

fun GetParentage_steps :: "nat \<Rightarrow> (int \<rightharpoonup> int) \<Rightarrow> int \<Rightarrow> int option \<Rightarrow> int option" where
  "GetParentage_steps n m parentid None = Some parentid"
| "GetParentage_steps 0 m parentid (Some second) = None"
| "GetParentage_steps (Suc n) m parentid (Some second) = GetParentage_steps n m second (m second)"

text \<open>The parent relation of a map, and the contract of the caller: no cycles.\<close>

definition parent_rel :: "(int \<rightharpoonup> int) \<Rightarrow> (int \<times> int) set" where
  "parent_rel m = {(k, v). m k = Some v}"

subsection \<open>preUserTrackingAction\<close>

text \<open>The test on the creation process name for showers.\<close>

definition isEMShowerProcess :: "string \<Rightarrow> bool" where
  "isEMShowerProcess process_name =
     (str_contains process_name ''conv''
      \<or> str_contains process_name ''LowEnConversion''
      \<or> str_contains process_name ''Pair''
      \<or> str_contains process_name ''compt''
      \<or> str_contains process_name ''Compt''
      \<or> str_contains process_name ''Brem''
      \<or> str_contains process_name ''phot''
      \<or> str_contains process_name ''Photo''
      \<or> str_contains process_name ''Ion''
      \<or> str_contains process_name ''annihil'')"

text \<open>The tail of the function, from the computation of the mass on: the record is
  created, the keep decision set when there is no filter, and the record added to the
  list.\<close>

definition create_particle ::
  "Config \<Rightarrow> G4Track \<Rightarrow> int \<Rightarrow> int \<Rightarrow> string \<Rightarrow> int \<Rightarrow> ServiceState \<Rightarrow> fault + ServiceState" where
  "create_particle cfg track trackID pdgCode process_name parentID s =
     (let mass = GetMass track / CLHEP_GeV;
          p = new_MCParticle trackID pdgCode process_name parentID mass;
          cp = ParticleInfo_clear\<lparr>particle := Some trackID\<rparr>;
          cp = (if fFilter cfg = None then cp\<lparr>keep := True\<rparr> else cp);
          p = p\<lparr>Polarization := GetPolarization track\<rparr>
      in case Add p (fparticleList s) of
           Inl e \<Rightarrow> Inl e
         | Inr pl \<Rightarrow> Inr (s\<lparr>fCurrentParticle := cp, fparticleList := pl\<rparr>))"

definition preUserTrackingAction ::
  "Config \<Rightarrow> G4Track \<Rightarrow> ServiceState \<Rightarrow> (fault + ServiceState) option" where
  "preUserTrackingAction cfg track s =
     (let pdgCode = GetPDGEncoding track;
          trackID = GetTrackID track + fTrackIDOffset s;
          s = s\<lparr>fCurrentTrackID := trackID\<rparr>;
          parentID = GetParentID track + fTrackIDOffset s
      in case GetPrimaryParticle track of
           Some primaryParticle \<Rightarrow>
             (if GetUserInformation primaryParticle = Some PrimaryParticleInformation
              then Some (create_particle cfg track trackID pdgCode ''primary'' 0 s)
              else Some (create_particle cfg track trackID pdgCode ''unknown'' parentID s))
         | None \<Rightarrow>
             (case GetCreatorProcess track of
                None \<Rightarrow> Some (Inl NullDereference)
              | Some process_name \<Rightarrow>
                  if \<not> fKeepEMShowerDaughters cfg \<and> isEMShowerProcess process_name then
                    (let s = s\<lparr>fParentIDMap := (fParentIDMap s)(trackID \<mapsto> parentID)\<rparr>
                     in case GetParentage (fParentIDMap s) trackID of
                          None \<Rightarrow> None
                        | Some ancestor \<Rightarrow>
                            (let s = s\<lparr>fCurrentTrackID := - 1 * ancestor\<rparr>;
                                 s = (if \<not> KnownParticle (fparticleList s) (fCurrentTrackID s)
                                      then s\<lparr>fCurrentTrackID := NoParticleId\<rparr> else s)
                             in Some (Inr (s\<lparr>fCurrentParticle := ParticleInfo_clear\<rparr>))))
                  else if GetKineticEnergy track < fenergyCut cfg then
                    (let s = s\<lparr>fCurrentParticle := ParticleInfo_clear\<rparr>;
                         s = s\<lparr>fParentIDMap := (fParentIDMap s)(trackID \<mapsto> parentID)\<rparr>
                     in case GetParentage (fParentIDMap s) trackID of
                          None \<Rightarrow> None
                        | Some ancestor \<Rightarrow> Some (Inr (s\<lparr>fCurrentTrackID := - 1 * ancestor\<rparr>)))
                  else if \<not> KnownParticle (fparticleList s) parentID then
                    (let s = s\<lparr>fParentIDMap := (fParentIDMap s)(trackID \<mapsto> parentID)\<rparr>
                     in case GetParentage (fParentIDMap s) parentID of
                          None \<Rightarrow> None
                        | Some pid \<Rightarrow>
                            Some (create_particle cfg track trackID pdgCode process_name
                                    (if \<not> KnownParticle (fparticleList s) pid then parentID else pid) s))
                  else Some (create_particle cfg track trackID pdgCode process_name parentID s)))"

subsection \<open>postUserTrackingAction\<close>

definition postUserTrackingAction :: "G4Track option \<Rightarrow> ServiceState \<Rightarrow> fault + ServiceState" where
  "postUserTrackingAction aTrack s =
     (case particle (fCurrentParticle s) of
        None \<Rightarrow> Inr s
      | Some ptr \<Rightarrow>
          if \<not> keep (fCurrentParticle s) then
            Inr (s\<lparr>fparticleList := Archive ptr (fparticleList s),
                   fCurrentParticle := ParticleInfo_clear\<rparr>)
          else
            (case aTrack of
               None \<Rightarrow> Inr s
             | Some t \<Rightarrow>
                 (case deref (fparticleList s) ptr of
                    None \<Rightarrow> Inl NullDereference
                  | Some p \<Rightarrow>
                      Inr (s\<lparr>fparticleList :=
                               update_entry ptr
                                 (\<lambda>_. Live (p\<lparr>Weight := GetWeight t, EndProcess := GetEndProcessName t\<rparr>))
                                 (fparticleList s)\<rparr>))))"

subsection \<open>AddPointToCurrentParticle and userSteppingAction\<close>

text \<open>\<^verbatim>\<open>fFilter->mustKeep(pos)\<close> dereferences the filter: with no filter configured the
  call is a null dereference.\<close>

definition AddPointToCurrentParticle ::
  "Config \<Rightarrow> TLorentzVector \<Rightarrow> TLorentzVector \<Rightarrow> string \<Rightarrow> ServiceState \<Rightarrow> fault + ServiceState" where
  "AddPointToCurrentParticle cfg pos mom process s =
     (case particle (fCurrentParticle s) of
        None \<Rightarrow> Inl NullDereference
      | Some ptr \<Rightarrow>
          (case deref (fparticleList s) ptr of
             None \<Rightarrow> Inl NullDereference
           | Some p \<Rightarrow>
               (let s = s\<lparr>fparticleList :=
                           update_entry ptr (\<lambda>_. Live (AddTrajectoryPoint p pos mom process))
                             (fparticleList s)\<rparr>
                in if \<not> keep (fCurrentParticle s) then
                     (case fFilter cfg of
                        None \<Rightarrow> Inl NullDereference
                      | Some mustKeep \<Rightarrow>
                          Inr (s\<lparr>fCurrentParticle := (fCurrentParticle s)\<lparr>keep := mustKeep pos\<rparr>\<rparr>))
                   else Inr s)))"

text \<open>The four-vectors built from a step point, in cm, ns and GeV.\<close>

definition fourPos :: "G4StepPoint \<Rightarrow> TLorentzVector" where
  "fourPos pt =
     (case GetPosition pt of
        (x, y, z) \<Rightarrow> (x / CLHEP_cm, y / CLHEP_cm, z / CLHEP_cm, GetGlobalTime pt / CLHEP_ns))"

definition fourMom :: "G4StepPoint \<Rightarrow> TLorentzVector" where
  "fourMom pt =
     (case GetMomentum pt of
        (x, y, z) \<Rightarrow> (x / CLHEP_GeV, y / CLHEP_GeV, z / CLHEP_GeV, GetTotalEnergy pt / CLHEP_GeV))"

text \<open>The stepping action writes to the step it is given (the global time of the
  post-step point), so the step is returned with the state. The file-level variables
  \<^verbatim>\<open>globalTime\<close>, \<^verbatim>\<open>velocity_G4\<close> and \<^verbatim>\<open>velocity_step\<close> are written before they are
  read in every call and read nowhere else: they are local here.\<close>

definition userSteppingAction ::
  "Config \<Rightarrow> G4Step \<Rightarrow> ServiceState \<Rightarrow> fault + G4Step \<times> ServiceState" where
  "userSteppingAction cfg step s =
     (case particle (fCurrentParticle s) of
        None \<Rightarrow> Inr (step, s)
      | Some ptr \<Rightarrow>
          (let globalTime = GetTrackGlobalTime (GetTrack step);
               velocity_G4 = GetVelocity (GetTrack step);
               velocity_step = GetStepLength step / GetDeltaTime step;
               step =
                 (if GetPDGEncoding (GetTrack step) = 0 \<and> \<bar>velocity_G4 - velocity_step\<bar> > 0.0001
                  then step\<lparr>GetPostStepPoint := (GetPostStepPoint step)
                         \<lparr>GetGlobalTime :=
                            globalTime - GetDeltaTime step + GetStepLength step / velocity_G4\<rparr>\<rparr>
                  else step)
           in case deref (fparticleList s) ptr of
                None \<Rightarrow> Inl NullDereference
              | Some p \<Rightarrow>
                  (case (if NumberTrajectoryPoints p = 0
                         then AddPointToCurrentParticle cfg (fourPos (GetPreStepPoint step))
                                (fourMom (GetPreStepPoint step)) ''Start'' s
                         else Inr s) of
                     Inl e \<Rightarrow> Inl e
                   | Inr s \<Rightarrow>
                       (let process = GetProcessName (GetPostStepPoint step);
                            ignoreProcess = (str_contains process ''LArVoxel''
                                             \<or> str_contains process ''OpDetReadout'')
                        in if fstoreTrajectories cfg \<and> \<not> ignoreProcess then
                             (case AddPointToCurrentParticle cfg (fourPos (GetPostStepPoint step))
                                     (fourMom (GetPostStepPoint step)) process s of
                                Inl e \<Rightarrow> Inl e
                              | Inr s \<Rightarrow> Inr (step, s))
                           else Inr (step, s)))))"

text \<open>The engine calls the stepping action once for every step of the track, in
  order.\<close>

fun userSteppingAction_steps :: "Config \<Rightarrow> G4Step list \<Rightarrow> ServiceState \<Rightarrow> fault + ServiceState" where
  "userSteppingAction_steps cfg [] s = Inr s"
| "userSteppingAction_steps cfg (step # steps) s =
     (case userSteppingAction cfg step s of
        Inl e \<Rightarrow> Inl e
      | Inr (step', s') \<Rightarrow> userSteppingAction_steps cfg steps s')"

subsection \<open>UpdateDaughterInformation\<close>

text \<open>\<^verbatim>\<open>operator()\<close> on the entry of key \<open>particleID\<close>.\<close>

definition UpdateDaughterInformation :: "ParticleList \<Rightarrow> int \<Rightarrow> fault + ParticleList" where
  "UpdateDaughterInformation particleList particleID =
     (case GetMotherOf particleList particleID of
        Inl e \<Rightarrow> Inl e
      | Inr parentID \<Rightarrow>
          if parentID \<le> 0 then Inr particleList
          else
            (case find_entry particleList parentID of
               None \<Rightarrow> Inr particleList
             | Some (Archived m) \<Rightarrow> Inr particleList
             | Some (Live parent) \<Rightarrow>
                 Inr (update_entry parentID (\<lambda>_. Live (AddDaughter parent particleID)) particleList)))"

text \<open>\<^verbatim>\<open>std::for_each\<close> over the entries: the keys are visited in the order of the list,
  and no call adds or removes a key.\<close>

fun for_each_UpdateDaughterInformation :: "int list \<Rightarrow> ParticleList \<Rightarrow> fault + ParticleList" where
  "for_each_UpdateDaughterInformation [] particleList = Inr particleList"
| "for_each_UpdateDaughterInformation (particleID # rest) particleList =
     (case UpdateDaughterInformation particleList particleID of
        Inl e \<Rightarrow> Inl e
      | Inr particleList' \<Rightarrow> for_each_UpdateDaughterInformation rest particleList')"

subsection \<open>GetList and YieldList\<close>

definition highestID_of :: "ParticleList \<Rightarrow> int" where
  "highestID_of pl = foldl (\<lambda>highestID pn. if fst pn > highestID then fst pn else highestID) 0 pl"

definition GetList :: "ServiceState \<Rightarrow> ParticleList \<times> ServiceState" where
  "GetList s =
     (let highestID = highestID_of (fparticleList s);
          s = (if length (fparticleList s) \<noteq> 0
               then s\<lparr>fTrackIDOffset := int32 (highestID + 1)\<rparr> else s)
      in (fparticleList s, s))"

text \<open>\<^verbatim>\<open>YieldList\<close> moves the list out; the member is left empty.\<close>

definition YieldList :: "ServiceState \<Rightarrow> ParticleList \<times> ServiceState" where
  "YieldList s =
     (let highestID = highestID_of (fparticleList s);
          s = (if length (fparticleList s) \<noteq> 0
               then s\<lparr>fTrackIDOffset := int32 (highestID + 1)\<rparr> else s)
      in (fparticleList s, s\<lparr>fparticleList := []\<rparr>))"

subsection \<open>endOfEventAction\<close>

text \<open>The products of an event: the particle collection and the associations of a
  truth record with an index into the collection.\<close>

record 't EventProducts =
  partCol :: "MCParticle list"
  tpassn :: "('t \<times> nat) list"

text \<open>The inner \<^verbatim>\<open>while\<close> loop. \<^verbatim>\<open>iPartPair\<close> is set to \<^verbatim>\<open>begin()\<close> before the loop and
  nothing in the body assigns to it, so the test compares the first cell with
  \<^verbatim>\<open>end()\<close> every time. \<open>moved\<close> is what \<^verbatim>\<open>std::move\<close> leaves in the record moved
  from (unspecified by the language).\<close>

partial_function (option) association_while ::
  "(MCParticle \<Rightarrow> MCParticle) \<Rightarrow> 't \<Rightarrow> ParticleList \<Rightarrow> 't EventProducts
     \<Rightarrow> (fault + ParticleList \<times> 't EventProducts) option" where
  "association_while moved mct particleList out =
     (case particleList of
        [] \<Rightarrow> Some (Inr (particleList, out))
      | iPartPair # rest \<Rightarrow>
          (case snd iPartPair of
             Archived m \<Rightarrow> Some (Inl NullDereference)
           | Live p \<Rightarrow>
               association_while moved mct ((fst iPartPair, Live (moved p)) # rest)
                 (out\<lparr>partCol := partCol out @ [p],
                      tpassn := tpassn out @ [(mct, length (partCol out @ [p]) - 1)]\<rparr>)))"

text \<open>The loop over the truth records of one handle, and the loop over the handles.\<close>

fun mclistHandle_for ::
  "(MCParticle \<Rightarrow> MCParticle) \<Rightarrow> 't list \<Rightarrow> ParticleList \<Rightarrow> 't EventProducts
     \<Rightarrow> (fault + ParticleList \<times> 't EventProducts) option" where
  "mclistHandle_for moved [] particleList out = Some (Inr (particleList, out))"
| "mclistHandle_for moved (mct # rest) particleList out =
     (case association_while moved mct particleList out of
        None \<Rightarrow> None
      | Some (Inl e) \<Rightarrow> Some (Inl e)
      | Some (Inr (particleList', out')) \<Rightarrow> mclistHandle_for moved rest particleList' out')"

fun mclists_for ::
  "(MCParticle \<Rightarrow> MCParticle) \<Rightarrow> 't list list \<Rightarrow> ParticleList \<Rightarrow> 't EventProducts
     \<Rightarrow> (fault + ParticleList \<times> 't EventProducts) option" where
  "mclists_for moved [] particleList out = Some (Inr (particleList, out))"
| "mclists_for moved (mclistHandle # rest) particleList out =
     (case mclistHandle_for moved mclistHandle particleList out of
        None \<Rightarrow> None
      | Some (Inl e) \<Rightarrow> Some (Inl e)
      | Some (Inr (particleList', out')) \<Rightarrow> mclists_for moved rest particleList' out')"

definition endOfEventAction ::
  "(MCParticle \<Rightarrow> MCParticle) \<Rightarrow> 't list list \<Rightarrow> ServiceState
     \<Rightarrow> (fault + ServiceState \<times> 't EventProducts) option" where
  "endOfEventAction moved mclists s =
     (let out = \<lparr>partCol = [], tpassn = []\<rparr>
      in case for_each_UpdateDaughterInformation (map fst (fparticleList s)) (fparticleList s) of
           Inl e \<Rightarrow> Some (Inl e)
         | Inr linked \<Rightarrow>
             (case YieldList (s\<lparr>fparticleList := linked\<rparr>) of
                (particleList, s) \<Rightarrow>
                  (case mclists_for moved mclists particleList out of
                     None \<Rightarrow> None
                   | Some (Inl e) \<Rightarrow> Some (Inl e)
                   | Some (Inr (particleList', out')) \<Rightarrow> Some (Inr (s, out')))))"

section \<open>Auxiliary notions and concrete inputs\<close>

text \<open>The keys of the map that a resolution starting at \<open>v\<close> can visit.\<close>

definition reach :: "(int \<rightharpoonup> int) \<Rightarrow> int \<Rightarrow> int set" where
  "reach m v = {u \<in> dom m. (v, u) \<in> (parent_rel m)\<^sup>*}"

text \<open>A map with a chain of two dropped tracks: 7 was made by 5, and 5 by 1.\<close>

definition chain_map :: "int \<rightharpoonup> int" where
  "chain_map = [7 \<mapsto> 5, 5 \<mapsto> 1]"

text \<open>An event with one admitted primary muon, at its end.\<close>

definition muon :: MCParticle where
  "muon = (new_MCParticle 1 13 ''primary'' 0 (1057 / 10000))\<lparr>Polarization := (0, 0, 1)\<rparr>"

definition one_particle_state :: ServiceState where
  "one_particle_state =
     \<lparr>fCurrentTrackID = 1, fTrackIDOffset = 0, fparticleList = [(1, Live muon)],
      fParentIDMap = Map.empty, fCurrentParticle = ParticleInfo_clear\<rparr>"

text \<open>What the daughter-linking pass adds: \<open>children_of pl ks key\<close> are the keys among
  \<open>ks\<close> whose mother is the positive id \<open>key\<close>.\<close>

definition add_daughters :: "int set \<Rightarrow> entry \<Rightarrow> entry" where
  "add_daughters D e =
     (case e of Live p \<Rightarrow> Live (p\<lparr>Daughters := Daughters p \<union> D\<rparr>) | Archived m \<Rightarrow> Archived m)"

definition children_of :: "ParticleList \<Rightarrow> int list \<Rightarrow> int \<Rightarrow> int set" where
  "children_of pl ks key = {c \<in> set ks. GetMotherOf pl c = Inr key \<and> 0 < key}"

text \<open>A configuration with an energy cut and without shower daughters; an electron
  made by a given process; a primary muon below the cut; the state at the start of an
  event; the state after a soft electron (track 2, made by track 1) has been dropped.\<close>

definition cut_config :: Config where
  "cut_config = \<lparr>fenergyCut = 1 / 1000, fstoreTrajectories = True,
                  fKeepEMShowerDaughters = False, fFilter = None\<rparr>"

definition secondary :: "int \<Rightarrow> int \<Rightarrow> string \<Rightarrow> real \<Rightarrow> G4Track" where
  "secondary trackID parentID process_name energy =
     \<lparr>GetTrackID = trackID, GetParentID = parentID, GetPDGEncoding = 11,
      GetPrimaryParticle = None, GetCreatorProcess = Some process_name,
      GetKineticEnergy = energy, GetMass = 511 / 1000, GetPolarization = (0, 0, 0),
      GetWeight = 1, GetTrackGlobalTime = 0, GetVelocity = 1, GetEndProcessName = ''Decay''\<rparr>"

definition soft_primary :: G4Track where
  "soft_primary =
     \<lparr>GetTrackID = 1, GetParentID = 0, GetPDGEncoding = 13,
      GetPrimaryParticle = Some \<lparr>GetUserInformation = Some PrimaryParticleInformation\<rparr>,
      GetCreatorProcess = None,
      GetKineticEnergy = 5 / 10000, GetMass = 1057 / 10, GetPolarization = (0, 0, 1),
      GetWeight = 1, GetTrackGlobalTime = 0, GetVelocity = 1, GetEndProcessName = ''Decay''\<rparr>"

definition event_start :: ServiceState where
  "event_start =
     \<lparr>fCurrentTrackID = NoParticleId, fTrackIDOffset = 0, fparticleList = [],
      fParentIDMap = Map.empty, fCurrentParticle = ParticleInfo_clear\<rparr>"


text \<open>A particle list with a primary (1), its live daughter (2), its archived daughter
  (3), a particle whose mother is archived (4) and an orphan (5); and the list after
  the daughter-linking pass.\<close>

definition family_list :: ParticleList where
  "family_list =
     [(1, Live muon),
      (2, Live (new_MCParticle 2 11 ''Decay'' 1 (511 / 1000000))),
      (3, Archived 1),
      (4, Live (new_MCParticle 4 22 ''Decay'' 3 0)),
      (5, Live (new_MCParticle 5 2112 ''nCapture'' 9 (9396 / 10000)))]"

definition family_linked :: ParticleList where
  "family_linked = update_entry 1 (\<lambda>_. Live (muon\<lparr>Daughters := {2, 3}\<rparr>)) family_list"

text \<open>An optical photon (PDG code 0, track 2) in flight, and a step of it whose length
  over its duration (5 / 4) is not the velocity of the track (1): the engine reports the
  post-step time 10.\<close>

definition photon :: MCParticle where
  "photon = new_MCParticle 2 0 ''Scintillation'' 1 0"

definition photon_state :: ServiceState where
  "photon_state =
     \<lparr>fCurrentTrackID = 2, fTrackIDOffset = 0,
      fparticleList = [(1, Live muon), (2, Live photon)],
      fParentIDMap = Map.empty, fCurrentParticle = \<lparr>particle = Some 2, keep = True\<rparr>\<rparr>"

definition photon_step :: G4Step where
  "photon_step =
     \<lparr>GetTrack =
        \<lparr>GetTrackID = 2, GetParentID = 1, GetPDGEncoding = 0,
         GetPrimaryParticle = None, GetCreatorProcess = Some ''Scintillation'',
         GetKineticEnergy = 8, GetMass = 0, GetPolarization = (1, 0, 0),
         GetWeight = 1, GetTrackGlobalTime = 10, GetVelocity = 1,
         GetEndProcessName = ''Transportation''\<rparr>,
      GetPreStepPoint =
        \<lparr>GetPosition = (0, 0, 0), GetGlobalTime = 6, GetMomentum = (0, 0, 8),
         GetTotalEnergy = 8, GetProcessName = ''Scintillation''\<rparr>,
      GetPostStepPoint =
        \<lparr>GetPosition = (0, 0, 5), GetGlobalTime = 10, GetMomentum = (0, 0, 8),
         GetTotalEnergy = 8, GetProcessName = ''Transportation''\<rparr>,
      GetStepLength = 5, GetDeltaTime = 4\<rparr>"

text \<open>The end of an event with the particle list above; a configuration with a keep
  predicate (positive first coordinate); the primary muon as current particle before
  and after the predicate has accepted a point.\<close>

definition family_state :: ServiceState where
  "family_state = one_particle_state\<lparr>fparticleList := family_list\<rparr>"

text \<open>The end of an event whose only particle has the largest 32-bit track id.\<close>

definition last_id_state :: ServiceState where
  "last_id_state =
     \<lparr>fCurrentTrackID = 2147483647, fTrackIDOffset = 2147483646,
      fparticleList = [(2147483647, Live (new_MCParticle 2147483647 13 ''primary'' 0 0))],
      fParentIDMap = Map.empty, fCurrentParticle = ParticleInfo_clear\<rparr>"

definition filter_config :: Config where
  "filter_config = cut_config\<lparr>fFilter := Some (\<lambda>pos. 0 < fst pos)\<rparr>"

definition undecided_state :: ServiceState where
  "undecided_state = one_particle_state\<lparr>fCurrentParticle := \<lparr>particle = Some 1, keep = False\<rparr>\<rparr>"

definition decided_state :: ServiceState where
  "decided_state =
     undecided_state
       \<lparr>fparticleList := [(1, Live (muon\<lparr>Trajectory := [((1, 0, 0, 0), (0, 0, 0, 1), ''Start'')]\<rparr>))],
        fCurrentParticle := \<lparr>particle = Some 1, keep = True\<rparr>\<rparr>"

section \<open>Resolution of the parentage\<close>

lemma GetParentage_loop_None: "GetParentage_loop m parentid None = Some parentid"
  by (subst GetParentage_loop.simps) simp

lemma GetParentage_loop_Some:
  "GetParentage_loop m parentid (Some second) = GetParentage_loop m second (m second)"
  by (subst GetParentage_loop.simps) simp

lemma GetParentage_steps_loop:
  "GetParentage_steps n m parentid itr = Some y \<Longrightarrow> GetParentage_loop m parentid itr = Some y"
proof (induction n arbitrary: parentid itr)
  case 0
  then show ?case by (cases itr) (simp_all add: GetParentage_loop_None)
next
  case (Suc n)
  then show ?case
    by (cases itr) (simp_all add: GetParentage_loop_None GetParentage_loop_Some)
qed

lemma reach_step:
  assumes "m v = Some w"
  shows "reach m v = insert v (reach m w)"
proof -
  have step: "(v, w) \<in> parent_rel m" using assms by (simp add: parent_rel_def)
  have "\<And>u. (v, u) \<in> (parent_rel m)\<^sup>* \<longleftrightarrow> u = v \<or> (w, u) \<in> (parent_rel m)\<^sup>*"
  proof
    fix u assume "(v, u) \<in> (parent_rel m)\<^sup>*"
    then show "u = v \<or> (w, u) \<in> (parent_rel m)\<^sup>*"
    proof (cases rule: converse_rtranclE)
      case base then show ?thesis by simp
    next
      case (step z)
      then have "z = w" using assms by (simp add: parent_rel_def)
      with step show ?thesis by simp
    qed
  next
    fix u assume "u = v \<or> (w, u) \<in> (parent_rel m)\<^sup>*"
    then show "(v, u) \<in> (parent_rel m)\<^sup>*"
      using step by (auto intro: converse_rtrancl_into_rtrancl)
  qed
  then show ?thesis using assms by (auto simp: reach_def)
qed

lemma reach_not_self:
  assumes "acyclic (parent_rel m)" "m v = Some w"
  shows "v \<notin> reach m w"
proof
  assume "v \<in> reach m w"
  then have "(w, v) \<in> (parent_rel m)\<^sup>*" by (simp add: reach_def)
  moreover have "(v, w) \<in> parent_rel m" using assms(2) by (simp add: parent_rel_def)
  ultimately have "(v, v) \<in> (parent_rel m)\<^sup>+" by (rule rtrancl_into_trancl2[rotated])
  with assms(1) show False by (simp add: acyclic_def)
qed

lemma GetParentage_steps_enough:
  assumes "finite (dom m)" "acyclic (parent_rel m)"
  shows "card (reach m v) \<le> n \<Longrightarrow>
         \<exists>y. GetParentage_steps n m p (m v) = Some y
            \<and> (if m v = None then y = p else (v, y) \<in> (parent_rel m)\<^sup>+ \<and> m y = None)"
proof (induction n arbitrary: v p)
  case 0
  show ?case
  proof (cases "m v")
    case None then show ?thesis by simp
  next
    case (Some w)
    have fin: "finite (reach m v)" using assms(1) by (simp add: reach_def)
    have "v \<in> reach m v" using Some by (auto simp: reach_def)
    with fin 0 show ?thesis by auto
  qed
next
  case (Suc n)
  show ?case
  proof (cases "m v")
    case None then show ?thesis by simp
  next
    case (Some w)
    have fin: "finite (reach m w)" using assms(1) by (simp add: reach_def)
    have "card (reach m v) = Suc (card (reach m w))"
      using reach_step[of m v w, OF Some] reach_not_self[of m v w, OF assms(2) Some] fin by simp
    with Suc.prems have "card (reach m w) \<le> n" by simp
    from Suc.IH[OF this, where p = w] obtain y where
      y: "GetParentage_steps n m w (m w) = Some y"
         "if m w = None then y = w else (w, y) \<in> (parent_rel m)\<^sup>+ \<and> m y = None"
      by blast
    have vw: "(v, w) \<in> parent_rel m" using Some by (simp add: parent_rel_def)
    have "(v, y) \<in> (parent_rel m)\<^sup>+ \<and> m y = None"
    proof (cases "m w")
      case None
      with y(2) have "y = w" by simp
      with vw None show ?thesis by auto
    next
      case (Some z)
      with y(2) have "(w, y) \<in> (parent_rel m)\<^sup>+" "m y = None" by simp_all
      with vw show ?thesis by (auto intro: trancl_into_trancl2)
    qed
    with y(1) Some show ?thesis by simp
  qed
qed

lemma card_reach_le: "finite (dom m) \<Longrightarrow> card (reach m v) \<le> card (dom m)"
  by (rule card_mono) (auto simp: reach_def)

lemma parents_precede_acyclic:
  assumes "\<And>k v. m k = Some v \<Longrightarrow> v < k"
  shows "acyclic (parent_rel m)"
proof -
  have "(a, b) \<in> (parent_rel m)\<^sup>+ \<Longrightarrow> b < a" for a b
    by (induction rule: trancl_induct) (auto simp: parent_rel_def dest: assms)
  then show ?thesis by (auto simp: acyclic_def)
qed


lemma GetParentage_returns:
  assumes "finite (dom m)" and "acyclic (parent_rel m)"
  shows "\<exists>y. GetParentage m trackid = Some y
           \<and> (if m trackid = None then y = NoParticleId
              else (trackid, y) \<in> (parent_rel m)\<^sup>+ \<and> m y = None)"
proof -
  from GetParentage_steps_enough[OF assms card_reach_le[OF assms(1)],
      where v = trackid and p = NoParticleId]
  obtain y where y: "GetParentage_steps (card (dom m)) m NoParticleId (m trackid) = Some y"
    "if m trackid = None then y = NoParticleId
     else (trackid, y) \<in> (parent_rel m)\<^sup>+ \<and> m y = None"
    by blast
  from GetParentage_steps_loop[OF y(1)] have "GetParentage m trackid = Some y"
    by (simp add: GetParentage_def)
  with y(2) show ?thesis by blast
qed

text \<open>
  Claim C7. When the parent map has no cycle (no chain of parent lookups comes back to
  a key it has visited) and, as every \<^verbatim>\<open>std::map\<close>, finitely many entries,
  \<^verbatim>\<open>GetParentage\<close> returns for every track id; the loop body runs at most as many
  times as the map has entries; the value returned is the sentinel when the track id
  is not a key of the map, and otherwise the value at the end of the chain of parent
  lookups: it is reached from the track id by one or more lookups and is itself not a
  key.
\<close>

theorem GetParentage_terminates_bounded:
  assumes "finite (dom m)" and "acyclic (parent_rel m)"
  shows "\<exists>y. GetParentage m trackid = Some y
           \<and> GetParentage_steps (card (dom m)) m NoParticleId (m trackid) = Some y
           \<and> (if m trackid = None then y = NoParticleId
              else (trackid, y) \<in> (parent_rel m)\<^sup>+ \<and> m y = None)"
proof -
  from GetParentage_steps_enough[OF assms card_reach_le[OF assms(1)], where v = trackid and p = NoParticleId]
  obtain y where y: "GetParentage_steps (card (dom m)) m NoParticleId (m trackid) = Some y"
    "if m trackid = None then y = NoParticleId
     else (trackid, y) \<in> (parent_rel m)\<^sup>+ \<and> m y = None"
    by blast
  from GetParentage_steps_loop[OF y(1)] have "GetParentage m trackid = Some y"
    by (simp add: GetParentage_def)
  with y show ?thesis by blast
qed

theorem GetParentage_terminates_bounded_witness:
  "finite (dom chain_map) \<and> acyclic (parent_rel chain_map)
   \<and> GetParentage chain_map 7 = Some 1
   \<and> GetParentage_steps (card (dom chain_map)) chain_map NoParticleId (chain_map 7) = Some 1
   \<and> (7, 1) \<in> (parent_rel chain_map)\<^sup>+ \<and> chain_map 1 = None
   \<and> GetParentage chain_map 3 = Some NoParticleId"
proof -
  have fin: "finite (dom chain_map)" by (simp add: chain_map_def)
  have acy: "acyclic (parent_rel chain_map)"
    by (rule parents_precede_acyclic) (auto simp: chain_map_def split: if_splits)
  have 7: "GetParentage chain_map 7 = Some 1"
    by (simp add: GetParentage_def chain_map_def GetParentage_loop_Some GetParentage_loop_None)
  have 3: "chain_map 3 = None" "chain_map 7 \<noteq> None" by (simp_all add: chain_map_def)
  from GetParentage_terminates_bounded[OF fin acy, of 7]
       GetParentage_terminates_bounded[OF fin acy, of 3]
  show ?thesis using fin acy 7 3 by auto
qed

section \<open>The particle list\<close>

lemma find_entry_insort:
  "find_entry pl k = None \<Longrightarrow>
   find_entry (insort_key fst (k, e) pl) k' = (if k' = k then Some e else find_entry pl k')"
  by (induction pl) (auto simp: find_entry_def)

lemma find_entry_update_entry:
  "find_entry (update_entry key f pl) k =
     (if k = key then map_option f (find_entry pl key) else find_entry pl k)"
  by (induction pl) (auto simp: find_entry_def)

lemma keys_update_entry: "map fst (update_entry key f pl) = map fst pl"
  by (induction pl) auto

section \<open>Track entry\<close>

lemma create_particle_added:
  assumes "find_entry (fparticleList s) trackID = None"
  shows "create_particle cfg track trackID pdgCode process_name parentID s =
           Inr (s\<lparr>fCurrentParticle := \<lparr>particle = Some trackID, keep = (fFilter cfg = None)\<rparr>,
                  fparticleList :=
                    insort_key fst
                      (trackID, Live ((new_MCParticle trackID pdgCode process_name parentID
                                         (GetMass track / CLHEP_GeV))
                                      \<lparr>Polarization := GetPolarization track\<rparr>))
                      (fparticleList s)\<rparr>)"
  using assms
  by (simp add: create_particle_def Add_def new_MCParticle_def ParticleInfo_clear_def Let_def)

lemma create_particle_fault:
  "create_particle cfg track trackID pdgCode process_name parentID s = Inl e \<Longrightarrow> e = DuplicateTrackId"
  by (auto simp: create_particle_def Add_def Let_def split: if_splits sum.splits)

lemma isEM_compt: "isEMShowerProcess ''compt''"
  by (simp add: isEMShowerProcess_def)



text \<open>
  Claim C10. A track without a \<^verbatim>\<open>G4PrimaryParticle\<close> has the name of its creator
  process read through \<^verbatim>\<open>GetCreatorProcess()\<close> with no test of the pointer: whatever the
  configuration and the state, the callback ends in a null dereference exactly when
  the track carries no creator process, so the fault cannot happen when every
  secondary carries one.
\<close>

theorem creator_process_dereferenced:
  assumes "GetPrimaryParticle track = None"
  shows "preUserTrackingAction cfg track s = Some (Inl NullDereference)
           \<longleftrightarrow> GetCreatorProcess track = None"
proof (cases "GetCreatorProcess track")
  case None
  with assms show ?thesis by (simp add: preUserTrackingAction_def)
next
  case (Some process_name)
  have "preUserTrackingAction cfg track s \<noteq> Some (Inl NullDereference)"
    using assms Some
    by (auto simp: preUserTrackingAction_def Let_def split: option.splits if_splits
        dest!: create_particle_fault)
  with Some show ?thesis by simp
qed

theorem creator_process_dereferenced_witness:
  "GetPrimaryParticle ((secondary 2 1 ''Decay'' 1)\<lparr>GetCreatorProcess := None\<rparr>) = None
   \<and> preUserTrackingAction cut_config ((secondary 2 1 ''Decay'' 1)\<lparr>GetCreatorProcess := None\<rparr>)
         one_particle_state = Some (Inl NullDereference)
   \<and> GetPrimaryParticle (secondary 2 1 ''Decay'' 1) = None
   \<and> GetCreatorProcess (secondary 2 1 ''Decay'' 1) \<noteq> None
   \<and> preUserTrackingAction cut_config (secondary 2 1 ''Decay'' 1) one_particle_state
         \<noteq> Some (Inl NullDereference)"
proof -
  have a: "GetPrimaryParticle ((secondary 2 1 ''Decay'' 1)\<lparr>GetCreatorProcess := None\<rparr>) = None"
    and b: "GetPrimaryParticle (secondary 2 1 ''Decay'' 1) = None"
    by (simp_all add: secondary_def)
  show ?thesis
    using creator_process_dereferenced[OF a, of cut_config one_particle_state]
      creator_process_dereferenced[OF b, of cut_config one_particle_state]
    by (simp add: secondary_def)
qed


lemma create_particle_filter_only:
  "create_particle (cfg\<lparr>fenergyCut := energyCut, fKeepEMShowerDaughters := keepEM\<rparr>) track trackID
      pdgCode process_name parentID s
   = create_particle cfg track trackID pdgCode process_name parentID s"
  by (simp add: create_particle_def)

text \<open>
  Claim C4, as amended. A track whose primary particle carries a
  \<^verbatim>\<open>PrimaryParticleInformation\<close>, and whose track id is not yet in the list, is added to
  the list with mother 0 and process name \<open>primary\<close>, for every configuration, every
  kinetic energy and every creator process: neither the shower test nor the energy cut
  is applied to it.
\<close>

theorem primary_always_admitted:
  assumes "GetPrimaryParticle track = Some primaryParticle"
    and "GetUserInformation primaryParticle = Some PrimaryParticleInformation"
    and "find_entry (fparticleList s) (GetTrackID track + fTrackIDOffset s) = None"
  shows "(\<exists>s' p. preUserTrackingAction cfg track s = Some (Inr s')
           \<and> find_entry (fparticleList s') (GetTrackID track + fTrackIDOffset s) = Some (Live p)
           \<and> TrackId p = GetTrackID track + fTrackIDOffset s
           \<and> Mother p = 0 \<and> Process p = ''primary''
           \<and> particle (fCurrentParticle s') = Some (GetTrackID track + fTrackIDOffset s)
           \<and> fCurrentTrackID s' = GetTrackID track + fTrackIDOffset s
           \<and> fParentIDMap s' = fParentIDMap s)
       \<and> preUserTrackingAction (cfg\<lparr>fenergyCut := energyCut, fKeepEMShowerDaughters := keepEM\<rparr>) track s
           = preUserTrackingAction cfg track s
       \<and> preUserTrackingAction cfg (track\<lparr>GetKineticEnergy := energy, GetCreatorProcess := creator\<rparr>) s
           = preUserTrackingAction cfg track s"
  using assms
  by (simp add: preUserTrackingAction_def Let_def create_particle_added find_entry_insort
      new_MCParticle_def create_particle_filter_only)

theorem primary_always_admitted_witness:
  "GetPrimaryParticle soft_primary = Some \<lparr>GetUserInformation = Some PrimaryParticleInformation\<rparr>
   \<and> find_entry (fparticleList event_start) (GetTrackID soft_primary + fTrackIDOffset event_start) = None
   \<and> (\<exists>s' p. preUserTrackingAction cut_config soft_primary event_start = Some (Inr s')
          \<and> find_entry (fparticleList s') 1 = Some (Live p)
          \<and> TrackId p = 1 \<and> Mother p = 0 \<and> Process p = ''primary'')
   \<and> preUserTrackingAction (cut_config\<lparr>fenergyCut := 0, fKeepEMShowerDaughters := True\<rparr>)
         soft_primary event_start
       = preUserTrackingAction cut_config soft_primary event_start
   \<and> preUserTrackingAction cut_config
         (soft_primary\<lparr>GetKineticEnergy := 1000, GetCreatorProcess := Some ''compt''\<rparr>) event_start
       = preUserTrackingAction cut_config soft_primary event_start"
proof -
  have a: "GetPrimaryParticle soft_primary = Some \<lparr>GetUserInformation = Some PrimaryParticleInformation\<rparr>"
    by (simp add: soft_primary_def)
  have b: "GetUserInformation \<lparr>GetUserInformation = Some PrimaryParticleInformation\<rparr>
             = Some PrimaryParticleInformation" by simp
  have c: "find_entry (fparticleList event_start) (GetTrackID soft_primary + fTrackIDOffset event_start) = None"
    by (simp add: event_start_def find_entry_def)
  have d: "GetTrackID soft_primary + fTrackIDOffset event_start = 1"
    by (simp add: event_start_def soft_primary_def)
  from primary_always_admitted[OF a b c, where cfg = cut_config and energyCut = 0
      and keepEM = True and energy = 1000 and creator = "Some ''compt''"]
  show ?thesis
    using a c unfolding d by blast
qed


text \<open>
  Claim C4 as stated has the energy cut applied to a primary when a cut is configured.
  With the cut at 0.001 a primary muon of kinetic energy 0.0005 is below the cut and is
  admitted all the same: the cut is not applied to it.
\<close>

theorem primary_below_energy_cut_admitted:
  "GetKineticEnergy soft_primary < fenergyCut cut_config
   \<and> preUserTrackingAction cut_config soft_primary event_start =
       Some (Inr (event_start
         \<lparr>fCurrentTrackID := 1,
          fparticleList :=
            [(1, Live ((new_MCParticle 1 13 ''primary'' 0 (1057 / 10000))\<lparr>Polarization := (0, 0, 1)\<rparr>))],
          fCurrentParticle := \<lparr>particle = Some 1, keep = True\<rparr>\<rparr>))"
  by (simp add: preUserTrackingAction_def soft_primary_def cut_config_def event_start_def
      create_particle_def Add_def find_entry_def new_MCParticle_def ParticleInfo_clear_def
      CLHEP_GeV_def Let_def)


lemma KnownParticle_negated: "KnownParticle pl (- trackID) = KnownParticle pl trackID"
  by (simp add: KnownParticle_def)

text \<open>
  Claim C2. A track without a primary particle whose creator process name matches a
  shower marker, while shower daughters are not kept, is not added to the list: its id
  and parent id are recorded in the parent map, the current track id is set to the
  negated resolved ancestor, the list is asked whether it knows that ancestor, the
  current track id keeps the negative encoding when it does and becomes the sentinel
  only when it does not, and the current particle is cleared.
\<close>

theorem EM_shower_daughter_dropped:
  assumes "GetPrimaryParticle track = None"
    and "GetCreatorProcess track = Some process_name"
    and "\<not> fKeepEMShowerDaughters cfg" and "isEMShowerProcess process_name"
    and "trackID = GetTrackID track + fTrackIDOffset s"
    and "parentID = GetParentID track + fTrackIDOffset s"
    and "finite (dom (fParentIDMap s))"
    and "acyclic (parent_rel ((fParentIDMap s)(trackID \<mapsto> parentID)))"
  shows "\<exists>ancestor. GetParentage ((fParentIDMap s)(trackID \<mapsto> parentID)) trackID = Some ancestor
           \<and> preUserTrackingAction cfg track s =
               Some (Inr (s\<lparr>fCurrentTrackID :=
                              (if KnownParticle (fparticleList s) ancestor then - ancestor
                               else NoParticleId),
                            fParentIDMap := (fParentIDMap s)(trackID \<mapsto> parentID),
                            fCurrentParticle := ParticleInfo_clear\<rparr>))"
proof -
  have "finite (dom ((fParentIDMap s)(trackID \<mapsto> parentID)))" using assms(7) by simp
  from GetParentage_returns[OF this assms(8)] obtain ancestor where
    anc: "GetParentage ((fParentIDMap s)(trackID \<mapsto> parentID)) trackID = Some ancestor" by blast
  show ?thesis
    using assms(1-4) anc unfolding assms(5,6)
    by (simp add: preUserTrackingAction_def Let_def KnownParticle_negated)
qed

theorem EM_shower_daughter_dropped_witness:
  "GetPrimaryParticle (secondary 2 1 ''compt'' 1) = None
   \<and> GetCreatorProcess (secondary 2 1 ''compt'' 1) = Some ''compt''
   \<and> \<not> fKeepEMShowerDaughters cut_config \<and> isEMShowerProcess ''compt''
   \<and> finite (dom (fParentIDMap one_particle_state))
   \<and> acyclic (parent_rel ((fParentIDMap one_particle_state)(2 \<mapsto> 1)))
   \<and> GetParentage ((fParentIDMap one_particle_state)(2 \<mapsto> 1)) 2 = Some 1
   \<and> KnownParticle (fparticleList one_particle_state) 1
   \<and> preUserTrackingAction cut_config (secondary 2 1 ''compt'' 1) one_particle_state =
       Some (Inr (one_particle_state
         \<lparr>fCurrentTrackID := - 1,
          fParentIDMap := (fParentIDMap one_particle_state)(2 \<mapsto> 1),
          fCurrentParticle := ParticleInfo_clear\<rparr>))
   \<and> acyclic (parent_rel ((fParentIDMap one_particle_state)(3 \<mapsto> 2)))
   \<and> GetParentage ((fParentIDMap one_particle_state)(3 \<mapsto> 2)) 3 = Some 2
   \<and> \<not> KnownParticle (fparticleList one_particle_state) 2
   \<and> preUserTrackingAction cut_config (secondary 3 2 ''compt'' 1) one_particle_state =
       Some (Inr (one_particle_state
         \<lparr>fCurrentTrackID := NoParticleId,
          fParentIDMap := (fParentIDMap one_particle_state)(3 \<mapsto> 2),
          fCurrentParticle := ParticleInfo_clear\<rparr>))"
proof -
  let ?t = "secondary 2 1 ''compt'' 1"
  let ?u = "secondary 3 2 ''compt'' 1"
  have a: "GetPrimaryParticle ?t = None" and b: "GetCreatorProcess ?t = Some ''compt''"
    and a': "GetPrimaryParticle ?u = None" and b': "GetCreatorProcess ?u = Some ''compt''"
    by (simp_all add: secondary_def)
  have c: "\<not> fKeepEMShowerDaughters cut_config" by (simp add: cut_config_def)
  have e: "2 = GetTrackID ?t + fTrackIDOffset one_particle_state"
    and f: "1 = GetParentID ?t + fTrackIDOffset one_particle_state"
    and e': "3 = GetTrackID ?u + fTrackIDOffset one_particle_state"
    and f': "2 = GetParentID ?u + fTrackIDOffset one_particle_state"
    by (simp_all add: secondary_def one_particle_state_def)
  have g: "finite (dom (fParentIDMap one_particle_state))"
    by (simp add: one_particle_state_def)
  have h: "acyclic (parent_rel ((fParentIDMap one_particle_state)(2 \<mapsto> 1)))"
    by (rule parents_precede_acyclic) (auto simp: one_particle_state_def split: if_splits)
  have h': "acyclic (parent_rel ((fParentIDMap one_particle_state)(3 \<mapsto> 2)))"
    by (rule parents_precede_acyclic) (auto simp: one_particle_state_def split: if_splits)
  have anc: "GetParentage ((fParentIDMap one_particle_state)(2 \<mapsto> 1)) 2 = Some 1"
    and anc': "GetParentage ((fParentIDMap one_particle_state)(3 \<mapsto> 2)) 3 = Some 2"
    by (simp_all add: GetParentage_def one_particle_state_def GetParentage_loop_Some
        GetParentage_loop_None)
  have known: "KnownParticle (fparticleList one_particle_state) 1"
    and unknown: "\<not> KnownParticle (fparticleList one_particle_state) 2"
    by (simp_all add: KnownParticle_def find_entry_def one_particle_state_def)
  from EM_shower_daughter_dropped[OF a b c isEM_compt e f g h] anc known
  have kept: "preUserTrackingAction cut_config ?t one_particle_state =
       Some (Inr (one_particle_state
         \<lparr>fCurrentTrackID := - 1,
          fParentIDMap := (fParentIDMap one_particle_state)(2 \<mapsto> 1),
          fCurrentParticle := ParticleInfo_clear\<rparr>))"
    by auto
  from EM_shower_daughter_dropped[OF a' b' c isEM_compt e' f' g h'] anc' unknown
  have fallen: "preUserTrackingAction cut_config ?u one_particle_state =
       Some (Inr (one_particle_state
         \<lparr>fCurrentTrackID := NoParticleId,
          fParentIDMap := (fParentIDMap one_particle_state)(3 \<mapsto> 2),
          fCurrentParticle := ParticleInfo_clear\<rparr>))"
    by auto
  show ?thesis
    using a b c isEM_compt g h anc known kept h' anc' unknown fallen by blast
qed





section \<open>The daughter-linking pass\<close>

lemma add_daughters_empty: "add_daughters {} e = e"
  by (cases e) (simp_all add: add_daughters_def)

lemma map_option_add_daughters_empty: "map_option (add_daughters {}) x = x"
  by (cases x) (simp_all add: add_daughters_empty)

lemma add_daughters_twice: "add_daughters D2 (add_daughters D1 e) = add_daughters (D1 \<union> D2) e"
  by (cases e) (simp_all add: add_daughters_def Un_assoc)

lemma children_of_Cons:
  "children_of pl (c # ks) key = children_of pl [c] key \<union> children_of pl ks key"
  by (auto simp: children_of_def)

lemma GetMotherOf_add_daughters:
  assumes "\<And>key. find_entry pl1 key = map_option (add_daughters (D key)) (find_entry pl0 key)"
  shows "GetMotherOf pl1 c = GetMotherOf pl0 c"
  by (simp add: GetMotherOf_def assms add_daughters_def split: option.splits entry.splits)

lemma UpdateDaughterInformation_effect:
  assumes "find_entry pl c \<noteq> None"
  shows "\<exists>pl1. UpdateDaughterInformation pl c = Inr pl1
           \<and> (\<forall>key. find_entry pl1 key
                      = map_option (add_daughters (children_of pl [c] key)) (find_entry pl key))"
proof -
  from assms obtain e where e: "find_entry pl c = Some e" by blast
  have "\<exists>M. GetMotherOf pl c = Inr M"
    by (cases e) (simp_all add: GetMotherOf_def e)
  then obtain M where M: "GetMotherOf pl c = Inr M" ..
  have ch: "children_of pl [c] key = (if key = M \<and> 0 < M then {c} else {})" for key
    using M by (auto simp: children_of_def)
  show ?thesis
  proof (cases "0 < M")
    case False
    then show ?thesis using M
      by (simp add: UpdateDaughterInformation_def ch map_option_add_daughters_empty)
  next
    case True
    show ?thesis
    proof (cases "find_entry pl M")
      case None
      then show ?thesis using M True
        by (auto simp: UpdateDaughterInformation_def ch map_option_add_daughters_empty)
    next
      case (Some e)
      show ?thesis
      proof (cases e)
        case (Archived a)
        then show ?thesis using M True Some
          by (auto simp: UpdateDaughterInformation_def ch map_option_add_daughters_empty
              add_daughters_def)
      next
        case (Live parent)
        then show ?thesis using M True Some
          by (auto simp: UpdateDaughterInformation_def ch map_option_add_daughters_empty
              add_daughters_def find_entry_update_entry AddDaughter_def)
      qed
    qed
  qed
qed

lemma UpdateDaughterInformation_keys:
  "UpdateDaughterInformation pl c = Inr pl1 \<Longrightarrow> map fst pl1 = map fst pl"
  by (auto simp: UpdateDaughterInformation_def keys_update_entry
      split: sum.splits if_splits option.splits entry.splits)

lemma for_each_UpdateDaughterInformation_keys:
  "for_each_UpdateDaughterInformation ks pl = Inr linked \<Longrightarrow> map fst linked = map fst pl"
proof (induction ks arbitrary: pl)
  case Nil
  then show ?case by simp
next
  case (Cons c ks)
  then show ?case
    by (auto split: sum.splits dest!: UpdateDaughterInformation_keys)
qed

lemma for_each_UpdateDaughterInformation_effect:
  assumes "\<forall>c \<in> set ks. find_entry pl c \<noteq> None"
  shows "\<exists>linked. for_each_UpdateDaughterInformation ks pl = Inr linked
           \<and> (\<forall>key. find_entry linked key
                      = map_option (add_daughters (children_of pl ks key)) (find_entry pl key))"
  using assms
proof (induction ks arbitrary: pl)
  case Nil
  then show ?case
    by (simp add: children_of_def map_option_add_daughters_empty)
next
  case (Cons c ks)
  from Cons.prems have "find_entry pl c \<noteq> None" by simp
  from UpdateDaughterInformation_effect[OF this] obtain pl1 where
    pl1: "UpdateDaughterInformation pl c = Inr pl1"
      "\<And>key. find_entry pl1 key = map_option (add_daughters (children_of pl [c] key)) (find_entry pl key)"
    by blast
  have mother: "GetMotherOf pl1 k = GetMotherOf pl k" for k
    by (rule GetMotherOf_add_daughters[where D = "children_of pl [c]"]) (rule pl1(2))
  have "\<forall>k \<in> set ks. find_entry pl1 k \<noteq> None"
    using Cons.prems by (simp add: pl1(2))
  from Cons.IH[OF this] obtain linked where
    linked: "for_each_UpdateDaughterInformation ks pl1 = Inr linked"
      "\<And>key. find_entry linked key = map_option (add_daughters (children_of pl1 ks key)) (find_entry pl1 key)"
    by blast
  have same: "children_of pl1 ks key = children_of pl ks key" for key
    by (simp add: children_of_def mother)
  have "find_entry linked key
          = map_option (add_daughters (children_of pl (c # ks) key)) (find_entry pl key)" for key
    by (simp add: linked(2) pl1(2) same option.map_comp comp_def add_daughters_twice
        children_of_Cons[of pl c ks key])
  with pl1(1) linked(1) show ?case by simp
qed


text \<open>
  Claim C8. The pass over the particle list returns without a fault and changes no
  key. For every entry \<open>P\<close> of the list (kept or archived) whose mother id \<open>M\<close> is
  positive and is the key of a live entry, \<open>P\<close> is in the daughter set of \<open>M\<close> after the
  pass. For every entry \<open>P\<close> whose mother id is not positive, or is no key of the list,
  or is the key of an archived entry, the call for \<open>P\<close> leaves the list as it is, and
  after the pass \<open>P\<close> is in no daughter set in which it was not before.
\<close>

theorem daughter_linking_pass:
  "\<exists>linked. for_each_UpdateDaughterInformation (map fst pl) pl = Inr linked
     \<and> map fst linked = map fst pl
     \<and> (\<forall>P M m. find_entry pl P \<noteq> None \<and> GetMotherOf pl P = Inr M \<and> 0 < M
                  \<and> find_entry pl M = Some (Live m)
              \<longrightarrow> (\<exists>m'. find_entry linked M = Some (Live m') \<and> P \<in> Daughters m'))
     \<and> (\<forall>P M. find_entry pl P \<noteq> None \<and> GetMotherOf pl P = Inr M
                \<and> (M \<le> 0 \<or> find_entry pl M = None \<or> (\<exists>a. find_entry pl M = Some (Archived a)))
              \<longrightarrow> UpdateDaughterInformation pl P = Inr pl
                \<and> (\<forall>k m'. find_entry linked k = Some (Live m') \<and> P \<in> Daughters m'
                      \<longrightarrow> (\<exists>m. find_entry pl k = Some (Live m) \<and> P \<in> Daughters m)))"
proof -
  have "\<forall>c \<in> set (map fst pl). find_entry pl c \<noteq> None"
    by (auto simp: find_entry_def map_of_eq_None_iff)
  from for_each_UpdateDaughterInformation_effect[OF this] obtain linked where
    linked: "for_each_UpdateDaughterInformation (map fst pl) pl = Inr linked"
      "\<And>key. find_entry linked key
          = map_option (add_daughters (children_of pl (map fst pl) key)) (find_entry pl key)"
    by blast
  have in_keys: "P \<in> set (map fst pl)" if "find_entry pl P \<noteq> None" for P
    using that by (simp add: find_entry_def map_of_eq_None_iff)
  have keys: "map fst linked = map fst pl"
    using linked(1) by (rule for_each_UpdateDaughterInformation_keys)
  have part1: "\<exists>m'. find_entry linked M = Some (Live m') \<and> P \<in> Daughters m'"
    if "find_entry pl P \<noteq> None" "GetMotherOf pl P = Inr M" "0 < M" "find_entry pl M = Some (Live m)"
    for P M m
    using that in_keys[OF that(1)] by (simp add: linked(2) add_daughters_def children_of_def)
  have part2a: "UpdateDaughterInformation pl P = Inr pl"
    if "GetMotherOf pl P = Inr M"
       "M \<le> 0 \<or> find_entry pl M = None \<or> (\<exists>a. find_entry pl M = Some (Archived a))" for P M
    using that by (auto simp: UpdateDaughterInformation_def)
  have part2b: "\<exists>m. find_entry pl k = Some (Live m) \<and> P \<in> Daughters m"
    if "GetMotherOf pl P = Inr M"
       "M \<le> 0 \<or> find_entry pl M = None \<or> (\<exists>a. find_entry pl M = Some (Archived a))"
       "find_entry linked k = Some (Live m')" "P \<in> Daughters m'" for P M k m'
    using that
    by (cases "find_entry pl k")
       (auto simp: linked(2) add_daughters_def children_of_def split: entry.splits)
  show ?thesis
    using linked(1) keys part1 part2a part2b by blast
qed

theorem daughter_linking_pass_witness:
  "for_each_UpdateDaughterInformation (map fst family_list) family_list = Inr family_linked
   \<and> find_entry family_list 2 \<noteq> None \<and> GetMotherOf family_list 2 = Inr 1 \<and> (0 :: int) < 1
   \<and> find_entry family_list 1 = Some (Live muon)
   \<and> (\<exists>m'. find_entry family_linked 1 = Some (Live m') \<and> 2 \<in> Daughters m')
   \<and> GetMotherOf family_list 1 = Inr 0
   \<and> GetMotherOf family_list 5 = Inr 9 \<and> find_entry family_list 9 = None
   \<and> GetMotherOf family_list 4 = Inr 3 \<and> find_entry family_list 3 = Some (Archived 1)
   \<and> UpdateDaughterInformation family_list 1 = Inr family_list
   \<and> UpdateDaughterInformation family_list 5 = Inr family_list
   \<and> UpdateDaughterInformation family_list 4 = Inr family_list
   \<and> find_entry family_linked 3 = Some (Archived 1)
   \<and> find_entry family_linked 1 = Some (Live (muon\<lparr>Daughters := {2, 3}\<rparr>))"
proof -
  have pass: "for_each_UpdateDaughterInformation (map fst family_list) family_list = Inr family_linked"
    by (simp add: family_list_def family_linked_def UpdateDaughterInformation_def GetMotherOf_def
        find_entry_def muon_def new_MCParticle_def AddDaughter_def insert_commute)
  have facts: "find_entry family_list 2 \<noteq> None" "GetMotherOf family_list 2 = Inr 1"
    "find_entry family_list 1 = Some (Live muon)"
    "find_entry family_list 1 \<noteq> None" "GetMotherOf family_list 1 = Inr 0"
    "find_entry family_list 5 \<noteq> None" "GetMotherOf family_list 5 = Inr 9"
    "find_entry family_list 9 = None"
    "find_entry family_list 4 \<noteq> None" "GetMotherOf family_list 4 = Inr 3"
    "find_entry family_list 3 = Some (Archived 1)"
    by (simp_all add: family_list_def GetMotherOf_def find_entry_def muon_def new_MCParticle_def)
  have linked: "find_entry family_linked 3 = Some (Archived 1)"
    "find_entry family_linked 1 = Some (Live (muon\<lparr>Daughters := {2, 3}\<rparr>))"
    by (simp_all add: family_list_def family_linked_def find_entry_def)
  from daughter_linking_pass[of family_list] pass
  have kept: "\<And>P M m. find_entry family_list P \<noteq> None \<and> GetMotherOf family_list P = Inr M \<and> 0 < M
                  \<and> find_entry family_list M = Some (Live m)
              \<Longrightarrow> (\<exists>m'. find_entry family_linked M = Some (Live m') \<and> P \<in> Daughters m')"
    and skipped: "\<And>P M. find_entry family_list P \<noteq> None \<and> GetMotherOf family_list P = Inr M
                \<and> (M \<le> 0 \<or> find_entry family_list M = None
                      \<or> (\<exists>a. find_entry family_list M = Some (Archived a)))
              \<Longrightarrow> UpdateDaughterInformation family_list P = Inr family_list"
    by auto
  have "\<exists>m'. find_entry family_linked 1 = Some (Live m') \<and> 2 \<in> Daughters m'"
    by (rule kept[of 2 1 muon]) (simp add: facts)
  moreover have "UpdateDaughterInformation family_list 1 = Inr family_list"
    by (rule skipped[of 1 0]) (simp add: facts)
  moreover have "UpdateDaughterInformation family_list 5 = Inr family_list"
    by (rule skipped[of 5 9]) (simp add: facts)
  moreover have "UpdateDaughterInformation family_list 4 = Inr family_list"
    by (rule skipped[of 4 3]) (simp add: facts)
  ultimately show ?thesis using pass facts linked by simp
qed

section \<open>The end of the event\<close>

lemma association_while_returns:
  assumes "association_while moved mct particleList out = Some r"
  shows "particleList = [] \<or> (\<exists>k m rest. particleList = (k, Archived m) # rest)"
proof (rule association_while.raw_induct
    [where P = "\<lambda>moved mct pl out r. pl = [] \<or> (\<exists>k m rest. pl = (k, Archived m) # rest)",
     OF _ assms])
  fix loop :: "(MCParticle \<Rightarrow> MCParticle) \<Rightarrow> 'a \<Rightarrow> ParticleList \<Rightarrow> 'a EventProducts
     \<Rightarrow> (fault + ParticleList \<times> 'a EventProducts) option"
  fix moved mct and pl :: ParticleList and out r
  assume IH: "\<And>moved mct pl out r. loop moved mct pl out = Some r
                \<Longrightarrow> pl = [] \<or> (\<exists>k m rest. pl = (k, Archived m) # rest)"
  assume body: "(case pl of
        [] \<Rightarrow> Some (Inr (pl, out))
      | iPartPair # rest \<Rightarrow>
          (case snd iPartPair of
             Archived m \<Rightarrow> Some (Inl NullDereference)
           | Live p \<Rightarrow>
               loop moved mct ((fst iPartPair, Live (moved p)) # rest)
                 (out\<lparr>partCol := partCol out @ [p],
                      tpassn := tpassn out @ [(mct, length (partCol out @ [p]) - 1)]\<rparr>))) = Some r"
  show "pl = [] \<or> (\<exists>k m rest. pl = (k, Archived m) # rest)"
  proof (cases pl)
    case Nil
    then show ?thesis by simp
  next
    case (Cons iPartPair rest)
    show ?thesis
    proof (cases "snd iPartPair")
      case (Live p)
      with Cons body have "loop moved mct ((fst iPartPair, Live (moved p)) # rest)
          (out\<lparr>partCol := partCol out @ [p],
               tpassn := tpassn out @ [(mct, length (partCol out @ [p]) - 1)]\<rparr>) = Some r"
        by simp
      from IH[OF this] show ?thesis by simp
    next
      case (Archived m)
      with Cons show ?thesis by (cases iPartPair) simp
    qed
  qed
qed

lemma association_while_diverges:
  "association_while moved mct ((k, Live p) # rest) out = None"
proof (cases "association_while moved mct ((k, Live p) # rest) out")
  case None
  then show ?thesis .
next
  case (Some r)
  from association_while_returns[OF this] show ?thesis by simp
qed

lemma association_while_empty: "association_while moved mct [] out = Some (Inr ([], out))"
  by (subst association_while.simps) simp

lemma association_while_archived:
  "association_while moved mct ((k, Archived m) # rest) out = Some (Inl NullDereference)"
  by (subst association_while.simps) simp


text \<open>
  Claim C1. The finalizer is to associate every drained particle with every truth
  record, terminate and emit the particles with the associations. With one admitted
  particle and one truth record \<^verbatim>\<open>endOfEventAction\<close> does not return: the inner
  \<^verbatim>\<open>while\<close> loop never advances its iterator, so its test stays true and the body
  appends to the collection without end.
\<close>

theorem endOfEventAction_does_not_return:
  "endOfEventAction moved [[mct]] one_particle_state = None"
  by (simp add: endOfEventAction_def one_particle_state_def muon_def new_MCParticle_def
      UpdateDaughterInformation_def GetMotherOf_def find_entry_def YieldList_def highestID_of_def
      association_while_diverges)

section \<open>What the callbacks of a track leave behind\<close>

lemma create_particle_Inr:
  assumes "create_particle cfg track trackID pdgCode process_name parentID s = Inr r"
  shows "find_entry (fparticleList s) trackID = None
       \<and> r = s\<lparr>fCurrentParticle := \<lparr>particle = Some trackID, keep = (fFilter cfg = None)\<rparr>,
                 fparticleList :=
                    insort_key fst
                      (trackID, Live ((new_MCParticle trackID pdgCode process_name parentID
                                         (GetMass track / CLHEP_GeV))
                                      \<lparr>Polarization := GetPolarization track\<rparr>))
                      (fparticleList s)\<rparr>"
proof (cases "find_entry (fparticleList s) trackID")
  case None
  with assms create_particle_added[OF None, of cfg track pdgCode process_name parentID]
  show ?thesis by simp
next
  case (Some e)
  with assms show ?thesis
    by (simp add: create_particle_def Add_def new_MCParticle_def Let_def)
qed

lemma create_particle_result:
  assumes "create_particle cfg track trackID pdgCode process_name parentID s = Inr r"
  shows "fTrackIDOffset r = fTrackIDOffset s \<and> particle (fCurrentParticle r) = Some trackID
       \<and> find_entry (fparticleList s) trackID = None
       \<and> (\<exists>p. find_entry (fparticleList r) trackID = Some (Live p) \<and> TrackId p = trackID)
       \<and> keep (fCurrentParticle r) = (fFilter cfg = None)"
  using create_particle_Inr[OF assms]
  by (auto simp: find_entry_insort new_MCParticle_def)

text \<open>What a track entry that returns leaves behind: the offset is unchanged, and a
  current particle, if there is one, is the new record of the track.\<close>

lemma preUserTrackingAction_result:
  assumes "preUserTrackingAction cfg track s = Some (Inr r)"
  shows "fTrackIDOffset r = fTrackIDOffset s
       \<and> (particle (fCurrentParticle r) = None
          \<or> particle (fCurrentParticle r) = Some (GetTrackID track + fTrackIDOffset s)
            \<and> find_entry (fparticleList s) (GetTrackID track + fTrackIDOffset s) = None
            \<and> (\<exists>p. find_entry (fparticleList r) (GetTrackID track + fTrackIDOffset s) = Some (Live p)
                   \<and> TrackId p = GetTrackID track + fTrackIDOffset s)
            \<and> keep (fCurrentParticle r) = (fFilter cfg = None))"
proof (cases "GetPrimaryParticle track")
  case (Some primaryParticle)
  with assms show ?thesis
    by (auto simp: preUserTrackingAction_def Let_def split: if_splits
        dest!: create_particle_result)
next
  case None
  show ?thesis
  proof (cases "GetCreatorProcess track")
    case None
    with \<open>GetPrimaryParticle track = None\<close> assms show ?thesis
      by (simp add: preUserTrackingAction_def)
  next
    case (Some process_name)
    show ?thesis
    proof (cases "\<not> fKeepEMShowerDaughters cfg \<and> isEMShowerProcess process_name")
      case True
      with \<open>GetPrimaryParticle track = None\<close> Some assms show ?thesis
        by (auto simp: preUserTrackingAction_def Let_def ParticleInfo_clear_def
            split: option.splits if_splits)
    next
      case notEM: False
      show ?thesis
      proof (cases "GetKineticEnergy track < fenergyCut cfg")
        case True
        with notEM \<open>GetPrimaryParticle track = None\<close> Some assms show ?thesis
          by (auto simp: preUserTrackingAction_def Let_def ParticleInfo_clear_def
              split: option.splits)
      next
        case False
        with notEM \<open>GetPrimaryParticle track = None\<close> Some assms show ?thesis
          by (auto simp: preUserTrackingAction_def Let_def
              split: option.splits if_splits dest!: create_particle_result)
      qed
    qed
  qed
qed

lemma AddPointToCurrentParticle_result:
  assumes "AddPointToCurrentParticle cfg pos mom process s = Inr r"
  shows "fTrackIDOffset r = fTrackIDOffset s
       \<and> particle (fCurrentParticle r) = particle (fCurrentParticle s)
       \<and> (\<exists>ptr p. particle (fCurrentParticle s) = Some ptr \<and> deref (fparticleList s) ptr = Some p
            \<and> deref (fparticleList r) ptr = Some (AddTrajectoryPoint p pos mom process))
       \<and> (if keep (fCurrentParticle s) then keep (fCurrentParticle r)
          else \<exists>mustKeep. fFilter cfg = Some mustKeep \<and> keep (fCurrentParticle r) = mustKeep pos)"
  using assms
  by (auto simp: AddPointToCurrentParticle_def Let_def deref_def find_entry_update_entry
      split: option.splits entry.splits if_splits)

lemma AddPointToCurrentParticle_kept:
  assumes "keep (fCurrentParticle s)"
  shows "AddPointToCurrentParticle cfg pos mom process s
           = AddPointToCurrentParticle (cfg\<lparr>fFilter := anyFilter\<rparr>) pos mom process s"
  using assms by (simp add: AddPointToCurrentParticle_def Let_def split: option.splits)

lemma userSteppingAction_result:
  assumes "userSteppingAction cfg step s = Inr (step', r)"
  shows "fTrackIDOffset r = fTrackIDOffset s
       \<and> particle (fCurrentParticle r) = particle (fCurrentParticle s)
       \<and> (keep (fCurrentParticle s) \<longrightarrow> keep (fCurrentParticle r))"
proof (cases "particle (fCurrentParticle s)")
  case None
  with assms show ?thesis by (simp add: userSteppingAction_def)
next
  case (Some ptr)
  with assms show ?thesis
    by (auto simp: userSteppingAction_def Let_def
        split: option.splits sum.splits if_splits
        dest!: AddPointToCurrentParticle_result)
qed

lemma postUserTrackingAction_result:
  assumes "postUserTrackingAction aTrack s = Inr r"
  shows "fTrackIDOffset r = fTrackIDOffset s
       \<and> (keep (fCurrentParticle s) \<longrightarrow> keep (fCurrentParticle r)
            \<and> particle (fCurrentParticle r) = particle (fCurrentParticle s))"
  using assms
  by (auto simp: postUserTrackingAction_def split: option.splits if_splits)

lemma userSteppingAction_steps_result:
  "userSteppingAction_steps cfg steps s = Inr r \<Longrightarrow>
     fTrackIDOffset r = fTrackIDOffset s
   \<and> (keep (fCurrentParticle s) \<longrightarrow> keep (fCurrentParticle r))"
proof (induction steps arbitrary: s)
  case Nil
  then show ?case by simp
next
  case (Cons step steps)
  then show ?case
    by (auto split: sum.splits dest!: userSteppingAction_result)
qed

lemma undecided_point_result:
  "AddPointToCurrentParticle filter_config (1, 0, 0, 0) (0, 0, 0, 1) ''Start'' undecided_state
     = Inr decided_state"
  by (simp add: AddPointToCurrentParticle_def filter_config_def cut_config_def undecided_state_def
      decided_state_def one_particle_state_def deref_def find_entry_def AddTrajectoryPoint_def
      muon_def new_MCParticle_def Let_def)

lemma decided_point_result:
  "AddPointToCurrentParticle filter_config (- 1, 0, 0, 0) (0, 0, 0, 1) ''Transportation'' decided_state
     = Inr (decided_state\<lparr>fparticleList :=
              [(1, Live (muon\<lparr>Trajectory := [((1, 0, 0, 0), (0, 0, 0, 1), ''Start''),
                                               ((- 1, 0, 0, 0), (0, 0, 0, 1), ''Transportation'')]\<rparr>))]\<rparr>)"
  by (simp add: AddPointToCurrentParticle_def filter_config_def cut_config_def undecided_state_def
      decided_state_def one_particle_state_def deref_def find_entry_def AddTrajectoryPoint_def
      muon_def new_MCParticle_def Let_def)

lemma filtered_admission_result:
  "preUserTrackingAction filter_config soft_primary event_start =
       Some (Inr (event_start
         \<lparr>fCurrentTrackID := 1,
          fparticleList :=
            [(1, Live ((new_MCParticle 1 13 ''primary'' 0 (1057 / 10000))\<lparr>Polarization := (0, 0, 1)\<rparr>))],
          fCurrentParticle := \<lparr>particle = Some 1, keep = False\<rparr>\<rparr>))"
  by (simp add: preUserTrackingAction_def soft_primary_def cut_config_def filter_config_def
      event_start_def create_particle_def Add_def find_entry_def new_MCParticle_def
      ParticleInfo_clear_def CLHEP_GeV_def Let_def)

lemma unfiltered_admission_result:
  "preUserTrackingAction cut_config soft_primary event_start =
       Some (Inr (event_start
         \<lparr>fCurrentTrackID := 1,
          fparticleList :=
            [(1, Live ((new_MCParticle 1 13 ''primary'' 0 (1057 / 10000))\<lparr>Polarization := (0, 0, 1)\<rparr>))],
          fCurrentParticle := \<lparr>particle = Some 1, keep = True\<rparr>\<rparr>))"
  by (simp add: preUserTrackingAction_def soft_primary_def cut_config_def event_start_def
      create_particle_def Add_def find_entry_def new_MCParticle_def ParticleInfo_clear_def
      CLHEP_GeV_def Let_def)

lemma photon_step_result:
  "userSteppingAction cut_config photon_step photon_state =
     Inr (photon_step\<lparr>GetPostStepPoint := (GetPostStepPoint photon_step)\<lparr>GetGlobalTime := 11\<rparr>\<rparr>,
          photon_state\<lparr>fparticleList :=
            [(1, Live muon),
             (2, Live (photon\<lparr>Trajectory :=
                  [((0, 0, 0, 6), (0, 0, 1 / 125, 1 / 125), ''Start''),
                   ((0, 0, 1 / 2, 11), (0, 0, 1 / 125, 1 / 125), ''Transportation'')]\<rparr>))]\<rparr>)"
  by (simp add: userSteppingAction_def photon_step_def photon_state_def cut_config_def
      deref_def find_entry_def photon_def new_MCParticle_def NumberTrajectoryPoints_def
      AddPointToCurrentParticle_def AddTrajectoryPoint_def fourPos_def fourMom_def
      CLHEP_cm_def CLHEP_ns_def CLHEP_GeV_def Let_def muon_def)


text \<open>
  Claim C9. The keep decision of a track only goes from false to true. A track that is
  admitted has it true exactly when no filter is configured. Appending a point while it
  is true does not involve the filter (the result is the same for every filter, also
  for none); appending a point while it is false asks the configured filter about the
  position just appended and takes its answer. A step, the steps of a track and the
  track exit leave a true decision true.
\<close>

theorem keep_decision_monotone:
  "(preUserTrackingAction cfg track s = Some (Inr admitted) \<and> hasParticle (fCurrentParticle admitted)
      \<longrightarrow> keep (fCurrentParticle admitted) = (fFilter cfg = None))
 \<and> (keep (fCurrentParticle s)
      \<longrightarrow> AddPointToCurrentParticle cfg pos mom process s
            = AddPointToCurrentParticle (cfg\<lparr>fFilter := anyFilter\<rparr>) pos mom process s)
 \<and> (AddPointToCurrentParticle cfg pos mom process s = Inr appended
      \<longrightarrow> (\<exists>ptr p. particle (fCurrentParticle s) = Some ptr
              \<and> deref (fparticleList appended) ptr = Some p
              \<and> last (Trajectory p) = (pos, mom, process))
        \<and> (if keep (fCurrentParticle s) then keep (fCurrentParticle appended)
            else \<exists>mustKeep. fFilter cfg = Some mustKeep
                   \<and> keep (fCurrentParticle appended) = mustKeep pos))
 \<and> (keep (fCurrentParticle s) \<and> userSteppingAction cfg step s = Inr (step', stepped)
      \<longrightarrow> keep (fCurrentParticle stepped))
 \<and> (keep (fCurrentParticle s) \<and> userSteppingAction_steps cfg steps s = Inr tracked
      \<longrightarrow> keep (fCurrentParticle tracked))
 \<and> (keep (fCurrentParticle s) \<and> postUserTrackingAction aTrack s = Inr left
      \<longrightarrow> keep (fCurrentParticle left))"
proof (intro conjI impI)
  assume "preUserTrackingAction cfg track s = Some (Inr admitted) \<and> hasParticle (fCurrentParticle admitted)"
  then show "keep (fCurrentParticle admitted) = (fFilter cfg = None)"
    using preUserTrackingAction_result[of cfg track s admitted] by (auto simp: hasParticle_def)
next
  assume "keep (fCurrentParticle s)"
  then show "AddPointToCurrentParticle cfg pos mom process s
            = AddPointToCurrentParticle (cfg\<lparr>fFilter := anyFilter\<rparr>) pos mom process s"
    by (rule AddPointToCurrentParticle_kept)
next
  assume A: "AddPointToCurrentParticle cfg pos mom process s = Inr appended"
  from AddPointToCurrentParticle_result[OF A]
  show "\<exists>ptr p. particle (fCurrentParticle s) = Some ptr
              \<and> deref (fparticleList appended) ptr = Some p
              \<and> last (Trajectory p) = (pos, mom, process)"
    by (auto simp: AddTrajectoryPoint_def)
  from AddPointToCurrentParticle_result[OF A]
  show "if keep (fCurrentParticle s) then keep (fCurrentParticle appended)
            else \<exists>mustKeep. fFilter cfg = Some mustKeep
                   \<and> keep (fCurrentParticle appended) = mustKeep pos"
    by blast
next
  assume "keep (fCurrentParticle s) \<and> userSteppingAction cfg step s = Inr (step', stepped)"
  then show "keep (fCurrentParticle stepped)"
    using userSteppingAction_result[of cfg step s step' stepped] by blast
next
  assume "keep (fCurrentParticle s) \<and> userSteppingAction_steps cfg steps s = Inr tracked"
  then show "keep (fCurrentParticle tracked)"
    using userSteppingAction_steps_result[of cfg steps s tracked] by blast
next
  assume "keep (fCurrentParticle s) \<and> postUserTrackingAction aTrack s = Inr left"
  then show "keep (fCurrentParticle left)"
    using postUserTrackingAction_result[of aTrack s left] by blast
qed

theorem keep_decision_monotone_witness:
  "fFilter cut_config = None \<and> fFilter filter_config \<noteq> None
 \<and> (\<exists>a. preUserTrackingAction cut_config soft_primary event_start = Some (Inr a)
        \<and> hasParticle (fCurrentParticle a) \<and> keep (fCurrentParticle a))
 \<and> (\<exists>a. preUserTrackingAction filter_config soft_primary event_start = Some (Inr a)
        \<and> hasParticle (fCurrentParticle a) \<and> \<not> keep (fCurrentParticle a))
 \<and> \<not> keep (fCurrentParticle undecided_state)
 \<and> AddPointToCurrentParticle filter_config (1, 0, 0, 0) (0, 0, 0, 1) ''Start'' undecided_state
      = Inr decided_state
 \<and> keep (fCurrentParticle decided_state)
 \<and> AddPointToCurrentParticle filter_config (- 1, 0, 0, 0) (0, 0, 0, 1) ''Transportation'' decided_state
      = AddPointToCurrentParticle (filter_config\<lparr>fFilter := None\<rparr>) (- 1, 0, 0, 0) (0, 0, 0, 1)
          ''Transportation'' decided_state
 \<and> (\<exists>b. AddPointToCurrentParticle filter_config (- 1, 0, 0, 0) (0, 0, 0, 1) ''Transportation''
            decided_state = Inr b \<and> keep (fCurrentParticle b))
 \<and> keep (fCurrentParticle photon_state)
 \<and> (\<exists>step' r. userSteppingAction cut_config photon_step photon_state = Inr (step', r)
        \<and> keep (fCurrentParticle r))
 \<and> (\<exists>r. userSteppingAction_steps cut_config [photon_step] photon_state = Inr r
        \<and> keep (fCurrentParticle r))
 \<and> (\<exists>r. postUserTrackingAction None photon_state = Inr r \<and> keep (fCurrentParticle r))"
proof -
  note M = keep_decision_monotone
  have f: "fFilter cut_config = None" "fFilter filter_config \<noteq> None"
    by (simp_all add: cut_config_def filter_config_def)
  \<comment> \<open>admission without and with a filter\<close>
  let ?a = "event_start
         \<lparr>fCurrentTrackID := 1,
          fparticleList :=
            [(1, Live ((new_MCParticle 1 13 ''primary'' 0 (1057 / 10000))\<lparr>Polarization := (0, 0, 1)\<rparr>))],
          fCurrentParticle := \<lparr>particle = Some 1, keep = True\<rparr>\<rparr>"
  let ?b = "event_start
         \<lparr>fCurrentTrackID := 1,
          fparticleList :=
            [(1, Live ((new_MCParticle 1 13 ''primary'' 0 (1057 / 10000))\<lparr>Polarization := (0, 0, 1)\<rparr>))],
          fCurrentParticle := \<lparr>particle = Some 1, keep = False\<rparr>\<rparr>"
  have ha: "hasParticle (fCurrentParticle ?a)" and hb: "hasParticle (fCurrentParticle ?b)"
    by (simp_all add: hasParticle_def)
  have "keep (fCurrentParticle ?a) = (fFilter cut_config = None)"
    by (rule M[where cfg = cut_config and track = soft_primary and s = event_start
          and admitted = ?a, THEN conjunct1, THEN mp, OF conjI[OF unfiltered_admission_result ha]])
  with f(1) have 1: "\<exists>a. preUserTrackingAction cut_config soft_primary event_start = Some (Inr a)
        \<and> hasParticle (fCurrentParticle a) \<and> keep (fCurrentParticle a)"
    using unfiltered_admission_result ha by auto
  have "keep (fCurrentParticle ?b) = (fFilter filter_config = None)"
    by (rule M[where cfg = filter_config and track = soft_primary and s = event_start
          and admitted = ?b, THEN conjunct1, THEN mp, OF conjI[OF filtered_admission_result hb]])
  with f(2) have 2: "\<exists>a. preUserTrackingAction filter_config soft_primary event_start = Some (Inr a)
        \<and> hasParticle (fCurrentParticle a) \<and> \<not> keep (fCurrentParticle a)"
    using filtered_admission_result hb by auto
  \<comment> \<open>the filter decides on the first point, and is not asked again\<close>
  have u: "\<not> keep (fCurrentParticle undecided_state)" by (simp add: undecided_state_def)
  have d: "keep (fCurrentParticle decided_state)" by (simp add: decided_state_def)
  have 3: "AddPointToCurrentParticle filter_config (- 1, 0, 0, 0) (0, 0, 0, 1) ''Transportation'' decided_state
      = AddPointToCurrentParticle (filter_config\<lparr>fFilter := None\<rparr>) (- 1, 0, 0, 0) (0, 0, 0, 1)
          ''Transportation'' decided_state"
    by (rule M[where s = decided_state, THEN conjunct2, THEN conjunct1, THEN mp, OF d])
  have "if keep (fCurrentParticle decided_state)
        then keep (fCurrentParticle (decided_state\<lparr>fparticleList :=
              [(1, Live (muon\<lparr>Trajectory := [((1, 0, 0, 0), (0, 0, 0, 1), ''Start''),
                                               ((- 1, 0, 0, 0), (0, 0, 0, 1), ''Transportation'')]\<rparr>))]\<rparr>))
        else \<exists>mustKeep. fFilter filter_config = Some mustKeep
               \<and> keep (fCurrentParticle (decided_state\<lparr>fparticleList :=
              [(1, Live (muon\<lparr>Trajectory := [((1, 0, 0, 0), (0, 0, 0, 1), ''Start''),
                                               ((- 1, 0, 0, 0), (0, 0, 0, 1), ''Transportation'')]\<rparr>))]\<rparr>))
                    = mustKeep (- 1, 0, 0, 0)"
    by (rule M[where s = decided_state and cfg = filter_config, THEN conjunct2, THEN conjunct2,
          THEN conjunct1, THEN mp, OF decided_point_result, THEN conjunct2])
  with d have 4: "\<exists>b. AddPointToCurrentParticle filter_config (- 1, 0, 0, 0) (0, 0, 0, 1) ''Transportation''
            decided_state = Inr b \<and> keep (fCurrentParticle b)"
    using decided_point_result by auto
  \<comment> \<open>a step, the steps of a track and the track exit\<close>
  have k: "keep (fCurrentParticle photon_state)" by (simp add: photon_state_def)
  from photon_step_result obtain step' r where
    st: "userSteppingAction cut_config photon_step photon_state = Inr (step', r)" by blast
  have kr: "keep (fCurrentParticle r)"
    by (rule M[where s = photon_state, THEN conjunct2, THEN conjunct2, THEN conjunct2,
          THEN conjunct1, THEN mp, OF conjI[OF k st]])
  have sts: "userSteppingAction_steps cut_config [photon_step] photon_state = Inr r"
    using st by simp
  have kr': "keep (fCurrentParticle r)"
    by (rule M[where s = photon_state, THEN conjunct2, THEN conjunct2, THEN conjunct2,
          THEN conjunct2, THEN conjunct1, THEN mp, OF conjI[OF k sts]])
  have po: "postUserTrackingAction None photon_state = Inr photon_state"
    by (simp add: postUserTrackingAction_def photon_state_def)
  have kp: "keep (fCurrentParticle photon_state)"
    by (rule M[where s = photon_state, THEN conjunct2, THEN conjunct2, THEN conjunct2,
          THEN conjunct2, THEN conjunct2, THEN mp, OF conjI[OF k po]])
  show ?thesis
    using f 1 2 u undecided_point_result d 3 4 k st kr sts po kp by blast
qed


section \<open>The track id offset\<close>

lemma highestID_loop:
  "foldl (\<lambda>highestID pn. if fst pn > highestID then fst pn else highestID) a pl
     = Max (insert a (fst ` set pl))"
proof (induction pl arbitrary: a)
  case Nil
  then show ?case by simp
next
  case (Cons x xs)
  have "Max (insert (if a < fst x then fst x else a) (fst ` set xs))
          = Max (insert a (insert (fst x) (fst ` set xs)))"
  proof (cases "fst ` set xs = {}")
    case True
    then show ?thesis by (auto simp: max_def)
  next
    case False
    then show ?thesis by (auto simp: max_def)
  qed
  with Cons show ?case by simp
qed

lemma highestID_of_Max:
  assumes "pl \<noteq> []" and "0 \<le> Max (fst ` set pl)"
  shows "highestID_of pl = Max (fst ` set pl)"
proof -
  have "fst ` set pl \<noteq> {}" using assms(1) by simp
  then have "Max (insert 0 (fst ` set pl)) = max 0 (Max (fst ` set pl))" by simp
  with assms(2) show ?thesis by (simp add: highestID_of_def highestID_loop)
qed


lemma int32_representable:
  "- 2147483648 \<le> x \<Longrightarrow> x \<le> 2147483647 \<Longrightarrow> int32 x = x"
  by (simp add: int32_def)

text \<open>
  Claim C6, as amended. \<^verbatim>\<open>YieldList\<close> leaves the offset unchanged when the list is empty.
  When the list has a live entry and its highest track id \<open>K\<close> is not negative and
  below 2147483647, so that \<open>K + 1\<close> is a 32-bit \<^verbatim>\<open>int\<close>, the offset becomes \<open>K + 1\<close> and
  is still \<open>K + 1\<close> after the next \<^verbatim>\<open>beginOfEventAction\<close>; in any state with that offset a
  track whose engine id is not negative and whose id, the engine id plus the offset,
  is a 32-bit \<^verbatim>\<open>int\<close> gets a track id above \<open>K\<close>, the record of an admitted track is
  filed under that id, and track entry, steps and track exit leave the offset as it
  is.
\<close>

theorem track_id_offset:
  "(fparticleList s = [] \<longrightarrow> fTrackIDOffset (snd (YieldList s)) = fTrackIDOffset s)
 \<and> ((\<exists>k p. (k, Live p) \<in> set (fparticleList s)) \<and> K = Max (fst ` set (fparticleList s)) \<and> 0 \<le> K
        \<and> K < 2147483647
      \<longrightarrow> fst (YieldList s) = fparticleList s
        \<and> fTrackIDOffset (snd (YieldList s)) = K + 1
        \<and> fTrackIDOffset (beginOfEventAction (snd (YieldList s))) = K + 1
        \<and> (\<forall>cfg track s' r.
              fTrackIDOffset s' = K + 1 \<and> 0 \<le> GetTrackID track
            \<and> GetTrackID track + (K + 1) \<le> 2147483647
            \<and> preUserTrackingAction cfg track s' = Some (Inr r)
            \<longrightarrow> fTrackIDOffset r = K + 1 \<and> K < GetTrackID track + fTrackIDOffset s'
              \<and> (\<forall>trackID. particle (fCurrentParticle r) = Some trackID
                    \<longrightarrow> K < trackID
                      \<and> (\<exists>p. find_entry (fparticleList r) trackID = Some (Live p)
                             \<and> TrackId p = trackID)))
        \<and> (\<forall>cfg steps s' r.
              fTrackIDOffset s' = K + 1 \<and> userSteppingAction_steps cfg steps s' = Inr r
            \<longrightarrow> fTrackIDOffset r = K + 1)
        \<and> (\<forall>aTrack s' r.
              fTrackIDOffset s' = K + 1 \<and> postUserTrackingAction aTrack s' = Inr r
            \<longrightarrow> fTrackIDOffset r = K + 1))"
proof (intro conjI impI)
  assume "fparticleList s = []"
  then show "fTrackIDOffset (snd (YieldList s)) = fTrackIDOffset s"
    by (simp add: YieldList_def)
next
  assume H: "(\<exists>k p. (k, Live p) \<in> set (fparticleList s)) \<and> K = Max (fst ` set (fparticleList s)) \<and> 0 \<le> K
        \<and> K < 2147483647"
  then have ne: "fparticleList s \<noteq> []" by auto
  from H have hi: "highestID_of (fparticleList s) = K"
    using highestID_of_Max[OF ne] by simp
  show "fst (YieldList s) = fparticleList s"
    by (simp add: YieldList_def Let_def)
  show off: "fTrackIDOffset (snd (YieldList s)) = K + 1"
  proof -
    from H have "int32 (K + 1) = K + 1" by (intro int32_representable) simp_all
    with ne hi show ?thesis by (simp add: YieldList_def Let_def)
  qed
  then show "fTrackIDOffset (beginOfEventAction (snd (YieldList s))) = K + 1"
    by (simp add: beginOfEventAction_def)
  show "\<forall>cfg track s' r.
              fTrackIDOffset s' = K + 1 \<and> 0 \<le> GetTrackID track
            \<and> GetTrackID track + (K + 1) \<le> 2147483647
            \<and> preUserTrackingAction cfg track s' = Some (Inr r)
            \<longrightarrow> fTrackIDOffset r = K + 1 \<and> K < GetTrackID track + fTrackIDOffset s'
              \<and> (\<forall>trackID. particle (fCurrentParticle r) = Some trackID
                    \<longrightarrow> K < trackID
                      \<and> (\<exists>p. find_entry (fparticleList r) trackID = Some (Live p)
                             \<and> TrackId p = trackID))"
  proof (intro allI impI)
    fix cfg and track :: G4Track and s' r
    assume A: "fTrackIDOffset s' = K + 1 \<and> 0 \<le> GetTrackID track
            \<and> GetTrackID track + (K + 1) \<le> 2147483647
            \<and> preUserTrackingAction cfg track s' = Some (Inr r)"
    then have pre: "preUserTrackingAction cfg track s' = Some (Inr r)" by blast
    from preUserTrackingAction_result[OF pre] A
    show "fTrackIDOffset r = K + 1 \<and> K < GetTrackID track + fTrackIDOffset s'
              \<and> (\<forall>trackID. particle (fCurrentParticle r) = Some trackID
                    \<longrightarrow> K < trackID
                      \<and> (\<exists>p. find_entry (fparticleList r) trackID = Some (Live p)
                             \<and> TrackId p = trackID))"
      by auto
  qed
  show "\<forall>cfg steps s' r.
              fTrackIDOffset s' = K + 1 \<and> userSteppingAction_steps cfg steps s' = Inr r
            \<longrightarrow> fTrackIDOffset r = K + 1"
    by (auto dest!: userSteppingAction_steps_result)
  show "\<forall>aTrack s' r.
              fTrackIDOffset s' = K + 1 \<and> postUserTrackingAction aTrack s' = Inr r
            \<longrightarrow> fTrackIDOffset r = K + 1"
    by (auto dest!: postUserTrackingAction_result)
qed

theorem track_id_offset_witness:
  "fparticleList event_start = []
 \<and> fTrackIDOffset (snd (YieldList event_start)) = fTrackIDOffset event_start
 \<and> (1, Live muon) \<in> set (fparticleList family_state)
 \<and> Max (fst ` set (fparticleList family_state)) = 5
 \<and> fTrackIDOffset (snd (YieldList family_state)) = 6
 \<and> fTrackIDOffset (beginOfEventAction (snd (YieldList family_state))) = 6
 \<and> 0 \<le> GetTrackID soft_primary \<and> GetTrackID soft_primary + (5 + 1) \<le> 2147483647
 \<and> (\<exists>r p. preUserTrackingAction cut_config soft_primary
              (beginOfEventAction (snd (YieldList family_state))) = Some (Inr r)
          \<and> particle (fCurrentParticle r) = Some 7
          \<and> find_entry (fparticleList r) 7 = Some (Live p) \<and> TrackId p = 7
          \<and> fTrackIDOffset r = 6)"
proof -
  have e: "fparticleList event_start = []" by (simp add: event_start_def)
  have l: "(1, Live muon) \<in> set (fparticleList family_state)"
    by (simp add: family_state_def family_list_def)
  have m: "Max (fst ` set (fparticleList family_state)) = 5"
    by (simp add: family_state_def family_list_def)
  have inst: "(\<exists>k p. (k, Live p) \<in> set (fparticleList family_state))
              \<and> 5 = Max (fst ` set (fparticleList family_state)) \<and> (0::int) \<le> 5
              \<and> (5::int) < 2147483647"
    using l m by auto
  let ?next = "beginOfEventAction (snd (YieldList family_state))"
  have empty: "fTrackIDOffset (snd (YieldList event_start)) = fTrackIDOffset event_start"
    by (rule track_id_offset[of event_start 0, THEN conjunct1, THEN mp, OF e])
  note T = track_id_offset[of family_state 5, THEN conjunct2, THEN mp, OF inst]
  have off: "fTrackIDOffset (snd (YieldList family_state)) = 6"
    using T[THEN conjunct2, THEN conjunct1] by simp
  have nxt: "fTrackIDOffset ?next = 6"
    using T[THEN conjunct2, THEN conjunct2, THEN conjunct1] by simp
  note adm = T[THEN conjunct2, THEN conjunct2, THEN conjunct2, THEN conjunct1, rule_format]
  have g: "0 \<le> GetTrackID soft_primary" by (simp add: soft_primary_def)
  have g': "GetTrackID soft_primary + (5 + 1) \<le> 2147483647" by (simp add: soft_primary_def)
  obtain r where pre: "preUserTrackingAction cut_config soft_primary ?next = Some (Inr r)"
    and cur: "particle (fCurrentParticle r) = Some 7"
  proof
    show "preUserTrackingAction cut_config soft_primary ?next =
       Some (Inr (?next
         \<lparr>fCurrentTrackID := 7,
          fparticleList :=
            [(7, Live ((new_MCParticle 7 13 ''primary'' 0 (1057 / 10000))\<lparr>Polarization := (0, 0, 1)\<rparr>))],
          fCurrentParticle := \<lparr>particle = Some 7, keep = True\<rparr>\<rparr>))"
      using nxt
      by (simp add: preUserTrackingAction_def soft_primary_def cut_config_def beginOfEventAction_def
          create_particle_def Add_def find_entry_def new_MCParticle_def ParticleInfo_clear_def
          CLHEP_GeV_def Let_def)
    show "particle (fCurrentParticle (?next
         \<lparr>fCurrentTrackID := 7,
          fparticleList :=
            [(7, Live ((new_MCParticle 7 13 ''primary'' 0 (1057 / 10000))\<lparr>Polarization := (0, 0, 1)\<rparr>))],
          fCurrentParticle := \<lparr>particle = Some 7, keep = True\<rparr>\<rparr>)) = Some 7"
      by simp
  qed
  have nxt': "fTrackIDOffset ?next = 5 + 1" using nxt by simp
  from adm[of ?next soft_primary cut_config r, OF conjI[OF nxt' conjI[OF g conjI[OF g' pre]]]] cur
  have "fTrackIDOffset r = 6 \<and> (\<exists>p. find_entry (fparticleList r) 7 = Some (Live p) \<and> TrackId p = 7)"
    by simp
  with pre cur have "\<exists>r p. preUserTrackingAction cut_config soft_primary ?next = Some (Inr r)
          \<and> particle (fCurrentParticle r) = Some 7
          \<and> find_entry (fparticleList r) 7 = Some (Live p) \<and> TrackId p = 7
          \<and> fTrackIDOffset r = 6"
    by blast
  with e empty l m off nxt g g' show ?thesis by blast
qed

text \<open>
  Claim C6 as stated holds for every highest track id. With the highest track id
  2147483647 the increment of line 465 leaves the 32-bit range: the offset becomes
  -2147483648, and the primary of the next event, of engine id 1, gets the track id
  -2147483647, which is not above 2147483647.
\<close>

theorem last_track_id_wraps_offset:
  "(2147483647, Live (new_MCParticle 2147483647 13 ''primary'' 0 0))
     \<in> set (fparticleList last_id_state)
 \<and> Max (fst ` set (fparticleList last_id_state)) = 2147483647
 \<and> fTrackIDOffset (snd (YieldList last_id_state)) = - 2147483648
 \<and> preUserTrackingAction cut_config soft_primary
       (beginOfEventAction (snd (YieldList last_id_state))) =
     Some (Inr (beginOfEventAction (snd (YieldList last_id_state))
       \<lparr>fCurrentTrackID := - 2147483647,
        fparticleList :=
          [(- 2147483647,
            Live ((new_MCParticle (- 2147483647) 13 ''primary'' 0 (1057 / 10000))
                    \<lparr>Polarization := (0, 0, 1)\<rparr>))],
        fCurrentParticle := \<lparr>particle = Some (- 2147483647), keep = True\<rparr>\<rparr>))
 \<and> - 2147483647 < (2147483647 :: int)"
  by (simp add: last_id_state_def YieldList_def highestID_of_def int32_def Let_def
      preUserTrackingAction_def soft_primary_def cut_config_def beginOfEventAction_def
      create_particle_def Add_def find_entry_def new_MCParticle_def ParticleInfo_clear_def
      CLHEP_GeV_def)


section \<open>The re-timing of photon steps\<close>






end
